theory Spec2Isabelle
  imports Complex_Main "HOL-Library.Sublist" "HOL-Library.Multiset"
begin

section \<open>Regular expressions of \<open>parse_srt_data\<close>\<close>

text \<open>
  The telemetry parser of \<^verbatim>\<open>inject_dji_metadata.py\<close> is a sequence of
  \<^verbatim>\<open>re.search\<close> calls. The patterns it uses are built from single-character
  classes, concatenation, alternation, greedy repetition of a character class and one
  capturing group. The matcher below is a backtracking matcher: it returns every way the
  pattern matches a prefix of the text, in the order in which a backtracking engine tries
  them, so the head of the list is the match that \<^verbatim>\<open>re\<close> reports.

  Texts are strings of 8-bit characters, the code points below 256; the classes
  \<^verbatim>\<open>\d\<close> and \<^verbatim>\<open>\s\<close> are the members of the classes of Python among them:
  the decimal digits 0 to 9 and, for \<^verbatim>\<open>\s\<close>, tab to carriage return, the four
  separators 0x1c to 0x1f, space, next line 0x85 and no-break space 0xa0.
\<close>

datatype rx =
    Atom "char \<Rightarrow> bool"
  | Eps
  | Seq rx rx
  | Alt rx rx
  | Star "char \<Rightarrow> bool"
  | Group rx

definition is_digit :: "char \<Rightarrow> bool" where
  "is_digit c = (c \<in> set ''0123456789'')"

definition is_space :: "char \<Rightarrow> bool" where
  "is_space c = (c \<in> set [CHR 0x09, CHR 0x0A, CHR 0x0B, CHR 0x0C, CHR 0x0D,
                           CHR 0x1C, CHR 0x1D, CHR 0x1E, CHR 0x1F, CHR 0x20,
                           CHR 0x85, CHR 0xA0])"

definition is_sign :: "char \<Rightarrow> bool" where
  "is_sign c = (c = CHR ''-'' \<or> c = CHR ''+'')"

definition not_rbracket :: "char \<Rightarrow> bool" where
  "not_rbracket c = (c \<noteq> CHR '']'')"

text \<open>Greedy repetition: the rests of the text after the longest run first, then shorter ones.\<close>

fun star_rests :: "(char \<Rightarrow> bool) \<Rightarrow> string \<Rightarrow> string list" where
  "star_rests p [] = [[]]"
| "star_rests p (c # cs) = (if p c then star_rests p cs @ [c # cs] else [c # cs])"

definition pick_group :: "string option \<Rightarrow> string option \<Rightarrow> string option" where
  "pick_group g1 g2 = (case g2 of None \<Rightarrow> g1 | Some x \<Rightarrow> Some x)"

text \<open>
  \<open>rx_match r s\<close>: the matches of \<open>r\<close> against a prefix of \<open>s\<close>, each as the text of
  the capturing group (if the match went through one) and the rest of \<open>s\<close>.
\<close>

fun rx_match :: "rx \<Rightarrow> string \<Rightarrow> (string option \<times> string) list" where
  "rx_match (Atom p) s = (case s of [] \<Rightarrow> [] | c # t \<Rightarrow> if p c then [(None, t)] else [])"
| "rx_match Eps s = [(None, s)]"
| "rx_match (Seq a b) s =
     concat (map (\<lambda>(g1, t). map (\<lambda>(g2, u). (pick_group g1 g2, u)) (rx_match b t))
                 (rx_match a s))"
| "rx_match (Alt a b) s = rx_match a s @ rx_match b s"
| "rx_match (Star p) s = map (Pair None) (star_rests p s)"
| "rx_match (Group a) s =
     map (\<lambda>(g, t). (Some (take (length s - length t) s), t)) (rx_match a s)"

text \<open>
  \<^verbatim>\<open>re.search(pattern, content)\<close> followed by \<^verbatim>\<open>.group(1)\<close>: the leftmost position
  at which the pattern matches, and there the first match in backtracking order.
  \<open>None\<close> is Python's \<^verbatim>\<open>None\<close> (no match anywhere).
\<close>

fun re_search :: "rx \<Rightarrow> string \<Rightarrow> string option" where
  "re_search r [] = (case rx_match r [] of [] \<Rightarrow> None | (g, _) # _ \<Rightarrow> Some (case g of None \<Rightarrow> [] | Some x \<Rightarrow> x))"
| "re_search r (c # cs) =
     (case rx_match r (c # cs) of
        [] \<Rightarrow> re_search r cs
      | (g, _) # _ \<Rightarrow> Some (case g of None \<Rightarrow> [] | Some x \<Rightarrow> x))"

fun lit :: "string \<Rightarrow> rx" where
  "lit [] = Eps"
| "lit (c # cs) = Seq (Atom ((=) c)) (lit cs)"

definition plus :: "(char \<Rightarrow> bool) \<Rightarrow> rx" where
  "plus p = Seq (Atom p) (Star p)"

definition d2 :: rx where
  "d2 = Seq (Atom is_digit) (Atom is_digit)"

text \<open>\<^verbatim>\<open>(\d{4}-\d{2}-\d{2} \d{2}:\d{2}:\d{2})\<close>\<close>

definition date_rx :: rx where
  "date_rx = Group (Seq d2 (Seq d2 (Seq (lit ''-'') (Seq d2 (Seq (lit ''-'') (Seq d2
               (Seq (lit '' '') (Seq d2 (Seq (lit '':'') (Seq d2 (Seq (lit '':'') d2)))))))))))"

text \<open>\<^verbatim>\<open>[-+]?\d*\.\d+|\d+\<close>: the alternation binds weakest.\<close>

definition number_rx :: rx where
  "number_rx = Alt (Seq (Alt (Atom is_sign) Eps)
                     (Seq (Star is_digit) (Seq (lit ''.'') (plus is_digit))))
                   (plus is_digit)"

text \<open>\<^verbatim>\<open>\[key\s*:\s*(value)\]\<close>\<close>

definition bracketed :: "string \<Rightarrow> rx \<Rightarrow> rx" where
  "bracketed key val =
     Seq (lit (CHR ''['' # key)) (Seq (Star is_space) (Seq (lit '':'')
       (Seq (Star is_space) (Seq (Group val) (lit '']'')))))"

definition lat_rx :: rx where
  "lat_rx = bracketed ''latitude'' number_rx"

definition lon_rx :: rx where
  "lon_rx = bracketed ''longitude'' number_rx"

text \<open>\<^verbatim>\<open>abs_alt:\s*([-+]?\d*\.\d+|\d+)\<close>\<close>

definition alt_rx :: rx where
  "alt_rx = Seq (lit ''abs_alt:'') (Seq (Star is_space) (Group number_rx))"

definition iso_rx :: rx where
  "iso_rx = bracketed ''iso'' (plus is_digit)"

definition shutter_rx :: rx where
  "shutter_rx = bracketed ''shutter'' (plus not_rbracket)"

definition fnum_rx :: rx where
  "fnum_rx = bracketed ''fnum'' (plus is_digit)"

section \<open>Python values, exceptions and helpers\<close>

datatype exn =
    KeyError string
  | ValueError
  | CalledProcessError string
  | FileNotFoundError
  | OSError
  | TypeError
  | AttributeError

text \<open>
  A Python \<^verbatim>\<open>float\<close> is modelled by the rational number it denotes; the rounding of a
  decimal literal to the nearest binary64 value is not modelled.
\<close>

datatype pyval = PStr string | PFloat rat

type_synonym dict = "string \<rightharpoonup> pyval"

definition bind_exn :: "exn + 'a \<Rightarrow> ('a \<Rightarrow> exn + 'b) \<Rightarrow> exn + 'b" where
  "bind_exn m f = (case m of Inl e \<Rightarrow> Inl e | Inr x \<Rightarrow> f x)"

definition digit_val :: "char \<Rightarrow> nat" where
  "digit_val c = of_char c - 48"

definition digits_val :: "string \<Rightarrow> nat" where
  "digits_val ds = foldl (\<lambda>a c. 10 * a + digit_val c) 0 ds"

text \<open>
  \<^verbatim>\<open>float(s)\<close> on the literals the patterns can capture: an optional sign, digits, and
  optionally a point and more digits, with at least one digit. Anything else is a
  \<^verbatim>\<open>ValueError\<close> here (Python accepts further forms, such as exponents, that no
  pattern of the parser captures).
\<close>

definition py_float :: "string \<Rightarrow> exn + rat" where
  "py_float s =
     (let body = (case s of [] \<Rightarrow> [] | c # t \<Rightarrow> if is_sign c then t else s);
          sg = (case s of [] \<Rightarrow> 1 | c # t \<Rightarrow> if c = CHR ''-'' then - 1 else (1::rat));
          ip = takeWhile is_digit body;
          r = dropWhile is_digit body
      in case r of
           [] \<Rightarrow> if ip = [] then Inl ValueError else Inr (sg * of_nat (digits_val ip))
         | c # fp \<Rightarrow>
             if c = CHR ''.'' \<and> list_all is_digit fp \<and> (ip \<noteq> [] \<or> fp \<noteq> [])
             then Inr (sg * (of_nat (digits_val ip) + of_nat (digits_val fp) / 10 ^ length fp))
             else Inl ValueError)"

text \<open>
  \<^verbatim>\<open>s.replace(old, new)\<close>: every occurrence of \<open>old\<close>, found scanning from the left
  and not overlapping, is replaced.
\<close>

function py_replace :: "string \<Rightarrow> string \<Rightarrow> string \<Rightarrow> string" where
  "py_replace old new s =
     (if old = [] then new @ concat (map (\<lambda>c. c # new) s)
      else if prefix old s then new @ py_replace old new (drop (length old) s)
      else (case s of [] \<Rightarrow> [] | c # cs \<Rightarrow> c # py_replace old new cs))"
  by pat_completeness auto
termination
  by (relation "measure (\<lambda>(old, new, s). length s)") (auto simp: prefix_def)

declare py_replace.simps [simp del]

text \<open>\<^verbatim>\<open>old in s\<close> on strings.\<close>

definition py_in :: "string \<Rightarrow> string \<Rightarrow> bool" where
  "py_in old s = sublist old s"

section \<open>TelemetryParser: \<open>parse_srt_data\<close>\<close>

text \<open>Lines 42 to 44: the coordinates are stored only when both patterns matched.\<close>

definition set_coords :: "string option \<Rightarrow> string option \<Rightarrow> dict \<Rightarrow> exn + dict" where
  "set_coords lat_match lon_match data =
     (case (lat_match, lon_match) of
        (Some la, Some lo) \<Rightarrow>
          bind_exn (py_float la) (\<lambda>x.
          bind_exn (py_float lo) (\<lambda>y.
            Inr (data(''latitude'' \<mapsto> PFloat x, ''longitude'' \<mapsto> PFloat y))))
      | _ \<Rightarrow> Inr data)"

text \<open>Lines 46 and 47.\<close>

definition set_altitude :: "string option \<Rightarrow> dict \<Rightarrow> exn + dict" where
  "set_altitude alt_match data =
     (case alt_match of
        Some a \<Rightarrow> bind_exn (py_float a) (\<lambda>z. Inr (data(''altitude'' \<mapsto> PFloat z)))
      | None \<Rightarrow> Inr data)"

text \<open>Lines 58 to 64.\<close>

definition set_shutter :: "string option \<Rightarrow> dict \<Rightarrow> dict" where
  "set_shutter shutter_match data =
     (case shutter_match of
        Some shutter_raw \<Rightarrow>
          if py_in ''.0'' shutter_raw
          then data(''shutter'' \<mapsto> PStr (py_replace ''.0'' [] shutter_raw))
          else data(''shutter'' \<mapsto> PStr shutter_raw)
      | None \<Rightarrow> data)"

text \<open>Lines 66 to 72: a \<^verbatim>\<open>ValueError\<close> of the conversion is swallowed.\<close>

definition set_fnum :: "string option \<Rightarrow> dict \<Rightarrow> exn + dict" where
  "set_fnum fnum_match data =
     (case fnum_match of
        Some f \<Rightarrow>
          (case py_float f of
             Inr f_val \<Rightarrow> Inr (data(''fnum'' \<mapsto> PFloat (f_val / 100)))
           | Inl ValueError \<Rightarrow> Inr data
           | Inl e \<Rightarrow> Inl e)
      | None \<Rightarrow> Inr data)"

text \<open>The body of the \<^verbatim>\<open>try\<close> block, lines 29 to 72, on the text read from the file.\<close>

definition parse_srt_text :: "string \<Rightarrow> exn + dict" where
  "parse_srt_text content =
     (let data = (case re_search date_rx content of
                    Some g \<Rightarrow> Map.empty(''datetime'' \<mapsto> PStr g)
                  | None \<Rightarrow> Map.empty);
          lat_match = re_search lat_rx content;
          lon_match = re_search lon_rx content;
          alt_match = re_search alt_rx content
      in bind_exn (set_coords lat_match lon_match data) (\<lambda>data.
         bind_exn (set_altitude alt_match data) (\<lambda>data.
           let iso_match = re_search iso_rx content;
               shutter_match = re_search shutter_rx content;
               fnum_match = re_search fnum_rx content;
               data = (case iso_match of Some i \<Rightarrow> data(''iso'' \<mapsto> PStr i) | None \<Rightarrow> data);
               data = set_shutter shutter_match data
           in set_fnum fnum_match data)))"

text \<open>
  \<open>parse_srt_data\<close> on the outcome of opening and reading the file: any exception of
  the \<^verbatim>\<open>try\<close> block yields \<^verbatim>\<open>None\<close> (lines 74 to 76); otherwise the
  dictionary is returned only if it holds both coordinates (lines 78 to 80).
\<close>

definition parse_srt_data :: "exn + string \<Rightarrow> dict option" where
  "parse_srt_data rd =
     (case bind_exn rd parse_srt_text of
        Inl e \<Rightarrow> None
      | Inr data \<Rightarrow>
          if data ''latitude'' \<noteq> None \<and> data ''longitude'' \<noteq> None then Some data else None)"

section \<open>What the matcher accepts\<close>


text \<open>
  The language of a pattern, the language of its capturing groups, and whether every match
  of the pattern goes through a group. These are specification-level notions, used to
  reason about \<open>rx_match\<close>; the parser itself is defined from \<open>rx_match\<close> alone.
\<close>


fun lang :: "rx \<Rightarrow> string set" where
  "lang (Atom p) = {[c] | c. p c}"
| "lang Eps = {[]}"
| "lang (Seq a b) = {u @ v | u v. u \<in> lang a \<and> v \<in> lang b}"
| "lang (Alt a b) = lang a \<union> lang b"
| "lang (Star p) = {w. list_all p w}"
| "lang (Group a) = lang a"


fun glang :: "rx \<Rightarrow> string set" where
  "glang (Group a) = lang a \<union> glang a"
| "glang (Seq a b) = glang a \<union> glang b"
| "glang (Alt a b) = glang a \<union> glang b"
| "glang (Atom p) = {}"
| "glang Eps = {}"
| "glang (Star p) = {}"


fun always_group :: "rx \<Rightarrow> bool" where
  "always_group (Group a) = True"
| "always_group (Seq a b) = (always_group a \<or> always_group b)"
| "always_group (Alt a b) = (always_group a \<and> always_group b)"
| "always_group (Atom p) = False"
| "always_group Eps = False"
| "always_group (Star p) = False"


text \<open>What the number pattern captures: a fraction with an optional sign, or plain digits.\<close>


definition signed_fraction :: "string \<Rightarrow> bool" where
  "signed_fraction w \<longleftrightarrow>
     (\<exists>sg ds fs. w = sg @ ds @ CHR 0x2E # fs \<and> (sg = [] \<or> (\<exists>c. sg = [c] \<and> is_sign c))
        \<and> list_all is_digit ds \<and> fs \<noteq> [] \<and> list_all is_digit fs)"


definition plain_digits :: "string \<Rightarrow> bool" where
  "plain_digits w \<longleftrightarrow> w \<noteq> [] \<and> list_all is_digit w"


section \<open>Shutter normalisation and coordinate occurrences, as the specification words them\<close>

text \<open>
  The specification speaks of stripping the substring \<^verbatim>\<open>.0\<close> once: \<open>strip_once\<close>
  removes the leftmost occurrence only. It is compared below with what line 62 computes.
\<close>

fun strip_once :: "string \<Rightarrow> string \<Rightarrow> string" where
  "strip_once old [] = []"
| "strip_once old (c # cs) =
     (if prefix old (c # cs) then drop (length old) (c # cs) else c # strip_once old cs)"


text \<open>The value under the key shutter of the record that \<open>parse_srt_data\<close> returns.\<close>

definition shutter_of :: "string \<Rightarrow> pyval option" where
  "shutter_of content =
     (case parse_srt_data (Inr content) of None \<Rightarrow> None | Some data \<Rightarrow> data ''shutter'')"

text \<open>
  A coordinate written as a negative integer: after the key, optional blanks, a colon,
  optional blanks, a minus sign, at least one digit, and the closing bracket.
\<close>

definition negative_int_value :: "string \<Rightarrow> bool" where
  "negative_int_value s =
     (case dropWhile is_space s of
        [] \<Rightarrow> False
      | c # r \<Rightarrow> c = CHR '':'' \<and>
          (case dropWhile is_space r of
             [] \<Rightarrow> False
           | sg # r2 \<Rightarrow> sg = CHR ''-'' \<and> takeWhile is_digit r2 \<noteq> [] \<and>
               (case dropWhile is_digit r2 of [] \<Rightarrow> False | e # _ \<Rightarrow> e = CHR '']'')))"

text \<open>\<open>all_tokens key P s\<close>: wherever \<open>key\<close> occurs in \<open>s\<close>, what follows it satisfies \<open>P\<close>.\<close>

fun all_tokens :: "string \<Rightarrow> (string \<Rightarrow> bool) \<Rightarrow> string \<Rightarrow> bool" where
  "all_tokens key P [] = True"
| "all_tokens key P (c # cs) =
     ((if prefix key (c # cs) then P (drop (length key) (c # cs)) else True)
      \<and> all_tokens key P cs)"

section \<open>FileMatcher: the matching step of \<open>main\<close>\<close>

text \<open>
  \<open>source_map\<close> is a Python dictionary: its keys are distinct and it iterates in insertion
  order, so it is an association list here. \<^verbatim>\<open>sorted(matches, key=len, reverse=True)\<close>
  is a stable sort: CPython reverses the list, sorts it stably in ascending order and
  reverses the result, so elements of equal length keep their order.
\<close>

type_synonym source_map = "(string \<times> string) list"

definition py_sorted_len_reverse :: "string list \<Rightarrow> string list" where
  "py_sorted_len_reverse xs = rev (sort_key length (rev xs))"

text \<open>Line 413.\<close>

definition matches_of :: "source_map \<Rightarrow> string \<Rightarrow> string list" where
  "matches_of source_map base_name = filter (\<lambda>key. py_in key base_name) (map fst source_map)"

text \<open>Lines 409 to 416: \<open>None\<close> is Python's \<^verbatim>\<open>None\<close>.\<close>

definition match_srt :: "source_map \<Rightarrow> string \<Rightarrow> string option" where
  "match_srt source_map base_name =
     (case map_of source_map base_name of
        Some p \<Rightarrow> Some p
      | None \<Rightarrow>
          (let matches = matches_of source_map base_name
           in if matches \<noteq> []
              then (case py_sorted_len_reverse matches of
                      [] \<Rightarrow> None
                    | best_match # _ \<Rightarrow> map_of source_map best_match)
              else None))"

text \<open>Lines 418 and 419: the pair joins the work list when the path is truthy.\<close>

definition work_item :: "source_map \<Rightarrow> string \<Rightarrow> string \<Rightarrow> (string \<times> string) option" where
  "work_item source_map export_path base_name =
     (case match_srt source_map base_name of
        None \<Rightarrow> None
      | Some matched_srt \<Rightarrow> if matched_srt \<noteq> [] then Some (export_path, matched_srt) else None)"

section \<open>RunReport: the tally of \<open>main\<close>\<close>

record tally =
  processed_count :: nat
  skipped_count :: nat
  already_processed_count :: nat
  successful_log :: "string list list"

text \<open>\<^verbatim>\<open>res.split('|')\<close>.\<close>

fun py_split :: "char \<Rightarrow> string \<Rightarrow> string list" where
  "py_split sep [] = [[]]"
| "py_split sep (c # cs) =
     (if c = sep then [] # py_split sep cs
      else (case py_split sep cs of [] \<Rightarrow> [[c]] | w # ws \<Rightarrow> (c # w) # ws))"

text \<open>Lines 439 to 446, one iteration.\<close>

definition tally_step :: "tally \<Rightarrow> string \<Rightarrow> tally" where
  "tally_step t res =
     (if prefix ''success'' res
      then t\<lparr>processed_count := processed_count t + 1,
             successful_log := successful_log t @ [tl (py_split (CHR ''|'') res)]\<rparr>
      else if res = ''already_processed''
      then t\<lparr>already_processed_count := already_processed_count t + 1\<rparr>
      else t\<lparr>skipped_count := skipped_count t + 1\<rparr>)"

definition tally_results :: "string list \<Rightarrow> tally" where
  "tally_results results =
     foldl tally_step
       \<lparr>processed_count = 0, skipped_count = 0, already_processed_count = 0,
        successful_log = []\<rparr> results"

text \<open>
  The four numbers written to the summary file, lines 453 to 456. Python integers are
  unbounded and signed, so the last one is an integer difference.
\<close>

record run_summary =
  total :: int
  success :: int
  already_processed :: int
  error_or_no_match :: int

definition summary_of :: "nat \<Rightarrow> string list \<Rightarrow> run_summary" where
  "summary_of total_videos results =
     (let t = tally_results results
      in \<lparr>total = int total_videos,
          success = int (processed_count t),
          already_processed = int (already_processed_count t),
          error_or_no_match =
            int total_videos - int (processed_count t) - int (already_processed_count t)\<rparr>)"

section \<open>CoordinateFormatter: \<open>format_iso6709\<close>\<close>

text \<open>
  Python formats a float with \<^verbatim>\<open>.Nf\<close> by rounding its exact value to \<open>N\<close> decimals,
  ties to even. A float is the rational number it denotes, so the rounding is computed on
  rationals. \<open>str_nat\<close> is the decimal numeral of a natural number.
\<close>

definition round_half_even :: "rat \<Rightarrow> int" where
  "round_half_even x =
     (let f = \<lfloor>x\<rfloor>; d = x - of_int f
      in if d < 1 / 2 then f else if 1 / 2 < d then f + 1 else if even f then f else f + 1)"

definition digit_char :: "nat \<Rightarrow> char" where
  "digit_char d = ''0123456789'' ! d"

fun str_nat :: "nat \<Rightarrow> string" where
  "str_nat n = (if n < 10 then [digit_char n] else str_nat (n div 10) @ [digit_char (n mod 10)])"

declare str_nat.simps [simp del]

definition zfill :: "nat \<Rightarrow> string \<Rightarrow> string" where
  "zfill width s = replicate (width - length s) (CHR ''0'') @ s"

text \<open>
  \<^verbatim>\<open>format(x, '0W.Pf')\<close>: the digits of \<open>x\<close> rounded to \<open>P\<close> decimals, padded with
  zeros on the left to \<open>W\<close> characters in all, the decimal point and the decimals included.
  A minus sign, when there is one, comes before the padding.
\<close>

definition py_fixed :: "nat \<Rightarrow> nat \<Rightarrow> rat \<Rightarrow> string" where
  "py_fixed width prec x =
     (let n = nat (round_half_even (\<bar>x\<bar> * 10 ^ prec));
          body = (if prec = 0 then str_nat n
                  else str_nat (n div 10 ^ prec) @ ''.'' @ zfill prec (str_nat (n mod 10 ^ prec)))
      in if x < 0 then ''-'' @ zfill (width - 1) body else zfill width body)"

text \<open>Lines 83 to 92.\<close>

definition format_iso6709 :: "rat \<Rightarrow> rat \<Rightarrow> rat \<Rightarrow> string" where
  "format_iso6709 lat lon alt =
     (let lat_sign = (if lat \<ge> 0 then ''+'' else ''-'');
          lon_sign = (if lon \<ge> 0 then ''+'' else ''-'');
          alt_sign = (if alt \<ge> 0 then ''+'' else ''-'')
      in lat_sign @ py_fixed 8 5 \<bar>lat\<bar> @ lon_sign @ py_fixed 9 5 \<bar>lon\<bar>
           @ alt_sign @ py_fixed 8 3 \<bar>alt\<bar> @ ''/'')"

section \<open>The file system and the external programs\<close>

text \<open>
  The remaining functions act on files and start external programs. The state they act on
  is the content of the files, by path, and the list of the commands started so far, each
  an argument vector. What the functions of \<^verbatim>\<open>os.path\<close> return, what a program does to
  the files and how it exits, whether a move fails and how a float prints belong to the
  platform: they are the fields of \<open>env\<close>, and the theorems hold for every \<open>env\<close>.
  Console output is not part of the state, and only files exist, no directories.
\<close>

type_synonym fs = "string \<rightharpoonup> string"

record world =
  files :: fs
  calls :: "string list list"

text \<open>
  How a started program ends: with a return code, its standard output and its standard
  error, or not at all because the executable was not found.
\<close>

datatype proc = Exit int string string | NoProgram

record env =
  path_dirname :: "string \<Rightarrow> string"
  path_basename :: "string \<Rightarrow> string"
  path_join :: "string \<Rightarrow> string \<Rightarrow> string"
  path_splitext :: "string \<Rightarrow> string \<times> string"
  path_normpath :: "string \<Rightarrow> string"
  run_program :: "string list \<Rightarrow> fs \<Rightarrow> proc \<times> fs"
  move_fails :: "string \<Rightarrow> string \<Rightarrow> fs \<Rightarrow> exn option"
  float_str :: "rat \<Rightarrow> string"

definition path_exists :: "world \<Rightarrow> string \<Rightarrow> bool" where
  "path_exists w p = (files w p \<noteq> None)"

text \<open>\<^verbatim>\<open>open(path).read()\<close>.\<close>

definition read_text :: "world \<Rightarrow> string \<Rightarrow> exn + string" where
  "read_text w p = (case files w p of None \<Rightarrow> Inl FileNotFoundError | Some content \<Rightarrow> Inr content)"

text \<open>
  \<^verbatim>\<open>subprocess.run(cmd, check=...)\<close>: the command is recorded, a missing executable
  raises \<^verbatim>\<open>FileNotFoundError\<close>, and with \<^verbatim>\<open>check=True\<close> a return code other than
  zero raises \<^verbatim>\<open>CalledProcessError\<close>, which carries the standard error. Otherwise the
  return code and the standard output are returned.
\<close>

definition subprocess_run :: "env \<Rightarrow> bool \<Rightarrow> string list \<Rightarrow> world \<Rightarrow> (exn + int \<times> string) \<times> world" where
  "subprocess_run e check cmd w =
     (case run_program e cmd (files w) of
        (NoProgram, fs') \<Rightarrow> (Inl FileNotFoundError, w\<lparr>calls := calls w @ [cmd]\<rparr>)
      | (Exit returncode out err, fs') \<Rightarrow>
          (if check \<and> returncode \<noteq> 0 then Inl (CalledProcessError err) else Inr (returncode, out),
           \<lparr>files = fs', calls = calls w @ [cmd]\<rparr>))"

text \<open>\<^verbatim>\<open>os.remove\<close> of a file; failures other than a missing file are not modelled.\<close>

definition os_remove :: "string \<Rightarrow> world \<Rightarrow> (exn + unit) \<times> world" where
  "os_remove p w =
     (if path_exists w p then (Inr (), w\<lparr>files := (files w)(p := None)\<rparr>)
      else (Inl FileNotFoundError, w))"

text \<open>
  \<^verbatim>\<open>shutil.move(src, dst)\<close> onto a file path: a move that fails raises and changes
  nothing; a move that succeeds puts the content of \<open>src\<close> at \<open>dst\<close> and removes \<open>src\<close>.
\<close>

definition shutil_move :: "env \<Rightarrow> string \<Rightarrow> string \<Rightarrow> world \<Rightarrow> (exn + unit) \<times> world" where
  "shutil_move e src dst w =
     (case files w src of
        None \<Rightarrow> (Inl FileNotFoundError, w)
      | Some content \<Rightarrow>
          (case move_fails e src dst (files w) of
             Some ex \<Rightarrow> (Inl ex, w)
           | None \<Rightarrow> (Inr (), w\<lparr>files := ((files w)(src := None))(dst \<mapsto> content)\<rparr>)))"

section \<open>MetadataInjector: \<open>inject_metadata\<close>\<close>

definition dict_keys :: "string list" where
  "dict_keys = [''datetime'', ''latitude'', ''longitude'', ''altitude'', ''iso'', ''shutter'', ''fnum'']"

text \<open>
  The truth value of a dictionary: it is not empty. The dictionaries of this program hold
  no other keys than the seven that \<open>parse_srt_data\<close> sets.
\<close>

definition truthy :: "dict \<Rightarrow> bool" where
  "truthy metadata = list_ex (\<lambda>k. metadata k \<noteq> None) dict_keys"

text \<open>\<^verbatim>\<open>metadata[key]\<close>.\<close>

definition dict_item :: "dict \<Rightarrow> string \<Rightarrow> exn + pyval" where
  "dict_item metadata key = (case metadata key of None \<Rightarrow> Inl (KeyError key) | Some v \<Rightarrow> Inr v)"

text \<open>A value inside an f-string.\<close>

definition py_str :: "env \<Rightarrow> pyval \<Rightarrow> string" where
  "py_str e v = (case v of PStr s \<Rightarrow> s | PFloat x \<Rightarrow> float_str e x)"

text \<open>\<^verbatim>\<open>f"{metadata.get(key, default)}"\<close>, the default given as it prints.\<close>

definition get_str :: "env \<Rightarrow> dict \<Rightarrow> string \<Rightarrow> string \<Rightarrow> string" where
  "get_str e metadata key dflt = (case metadata key of None \<Rightarrow> dflt | Some v \<Rightarrow> py_str e v)"

text \<open>\<^verbatim>\<open>value.replace(old, new)\<close>, a method of strings only.\<close>

definition replace_method :: "string \<Rightarrow> string \<Rightarrow> pyval \<Rightarrow> exn + string" where
  "replace_method old new v =
     (case v of PStr s \<Rightarrow> Inr (py_replace old new s) | PFloat x \<Rightarrow> Inl AttributeError)"

text \<open>A value compared with zero and given to \<^verbatim>\<open>abs\<close>: a number.\<close>

definition as_number :: "pyval \<Rightarrow> exn + rat" where
  "as_number v = (case v of PFloat x \<Rightarrow> Inr x | PStr s \<Rightarrow> Inl TypeError)"

text \<open>\<^verbatim>\<open>cmd.insert(i, x)\<close> for an index that is not negative.\<close>

definition py_insert :: "nat \<Rightarrow> 'a \<Rightarrow> 'a list \<Rightarrow> 'a list" where
  "py_insert i x xs = take i xs @ x # drop i xs"

text \<open>
  Lines 103 to 169: the command line of \<^verbatim>\<open>exiftool\<close>, or the exception raised while
  it is built. The altitude defaults to the integer 0, which prints as \<^verbatim>\<open>0\<close>.
\<close>

definition exiftool_cmd :: "env \<Rightarrow> string \<Rightarrow> dict \<Rightarrow> exn + string list" where
  "exiftool_cmd e video_path metadata =
     bind_exn (dict_item metadata ''datetime'') (\<lambda>dt.
     bind_exn (replace_method ''-'' '':'' dt) (\<lambda>dt_str.
     bind_exn (dict_item metadata ''latitude'') (\<lambda>lat.
     bind_exn (dict_item metadata ''longitude'') (\<lambda>lon.
     bind_exn (as_number lat) (\<lambda>lat_n.
     bind_exn (as_number lon) (\<lambda>lon_n.
     bind_exn (case metadata ''altitude'' of None \<Rightarrow> Inr 0 | Some alt \<Rightarrow> as_number alt) (\<lambda>alt_n.
       let iso_gps = format_iso6709 lat_n lon_n alt_n;
           cam_summary = ''DJI Mini 3 Pro | ISO '' @ get_str e metadata ''iso'' ''?'' @ '', ''
             @ get_str e metadata ''shutter'' ''?'' @ '', f/'' @ get_str e metadata ''fnum'' [];
           keywords = ''Drone; DJI; Mini 3 Pro; Telemetry'';
           cmd = [''exiftool'', ''-overwrite_original'',
                  ''-Make=DJI'', ''-Model=DJI Mini 3 Pro'',
                  ''-Keys:Make=DJI'', ''-Keys:Model=DJI Mini 3 Pro'',
                  ''-Description='' @ cam_summary,
                  ''-UserComment='' @ cam_summary,
                  ''-Keys:Description='' @ cam_summary,
                  ''-Keywords='' @ keywords,
                  ''-Keys:Keywords='' @ keywords,
                  ''-Keys:DisplayName='' @ path_basename e video_path,
                  ''-Keys:CreationDate='' @ dt_str,
                  ''-QuickTime:CreateDate='' @ dt_str,
                  ''-QuickTime:ModifyDate='' @ dt_str,
                  ''-QuickTime:TrackCreateDate='' @ dt_str,
                  ''-QuickTime:TrackModifyDate='' @ dt_str,
                  ''-QuickTime:MediaCreateDate='' @ dt_str,
                  ''-QuickTime:MediaModifyDate='' @ dt_str,
                  ''-Keys:GPSCoordinates='' @ iso_gps,
                  ''-QuickTime:GPSCoordinates='' @ iso_gps,
                  ''-UserData:GPSCoordinates='' @ iso_gps,
                  ''-XMP:GPSLatitude='' @ py_str e lat,
                  ''-XMP:GPSLongitude='' @ py_str e lon,
                  ''-XMP:GPSAltitude='' @ get_str e metadata ''altitude'' ''0'',
                  ''-XMP:GPSAltitudeRef=Above Sea Level'',
                  video_path];
           cmd = (if metadata ''iso'' \<noteq> None
                  then py_insert 2 (''-ISO='' @ get_str e metadata ''iso'' []) cmd else cmd);
           cmd = (if metadata ''shutter'' \<noteq> None
                  then py_insert 2 (''-ExposureTime='' @ get_str e metadata ''shutter'' []) cmd else cmd);
           cmd = (if metadata ''fnum'' \<noteq> None
                  then py_insert 2 (''-FNumber='' @ get_str e metadata ''fnum'' []) cmd else cmd)
       in Inr cmd)))))))"

text \<open>
  Lines 94 to 190. A leftover temporary file of \<^verbatim>\<open>exiftool\<close> is removed first. Of the
  exceptions of the run only \<^verbatim>\<open>CalledProcessError\<close> is caught, and nothing tells the
  caller that it was.
\<close>

definition inject_metadata :: "env \<Rightarrow> string \<Rightarrow> dict \<Rightarrow> world \<Rightarrow> (exn + unit) \<times> world" where
  "inject_metadata e video_path metadata w =
     (if \<not> truthy metadata then (Inr (), w)
      else case exiftool_cmd e video_path metadata of
        Inl ex \<Rightarrow> (Inl ex, w)
      | Inr cmd \<Rightarrow>
          let tmp_path = video_path @ ''_exiftool_tmp'';
              w1 = (if path_exists w tmp_path then snd (os_remove tmp_path w) else w)
          in case subprocess_run e True cmd w1 of
               (Inr r, w2) \<Rightarrow> (Inr (), w2)
             | (Inl (CalledProcessError err), w2) \<Rightarrow> (Inr (), w2)
             | (Inl ex, w2) \<Rightarrow> (Inl ex, w2))"

section \<open>SubtitleEmbedder: \<open>embed_subtitle\<close>\<close>

text \<open>Lines 192 to 198.\<close>

definition check_ffmpeg :: "env \<Rightarrow> world \<Rightarrow> (exn + bool) \<times> world" where
  "check_ffmpeg e w =
     (case subprocess_run e True [''ffmpeg'', ''-version''] w of
        (Inr r, w1) \<Rightarrow> (Inr True, w1)
      | (Inl (CalledProcessError err), w1) \<Rightarrow> (Inr False, w1)
      | (Inl FileNotFoundError, w1) \<Rightarrow> (Inr False, w1)
      | (Inl ex, w1) \<Rightarrow> (Inl ex, w1))"

definition temp_output_of :: "env \<Rightarrow> string \<Rightarrow> string" where
  "temp_output_of e video_path =
     (let dir_name = path_dirname e video_path;
          base_name = path_basename e video_path
      in path_join e dir_name (''temp_'' @ base_name))"

definition ffmpeg_cmd :: "string \<Rightarrow> string \<Rightarrow> string \<Rightarrow> string list" where
  "ffmpeg_cmd video_path srt_path temp_output =
     [''ffmpeg'', ''-y'', ''-i'', video_path, ''-i'', srt_path, ''-c'', ''copy'',
      ''-c:s'', ''mov_text'', ''-metadata:s:s:0'', ''language=eng'',
      ''-metadata:s:s:0'', ''handler_name=Telemetry'',
      ''-metadata:s:s:0'', ''title=DJI Telemetry'', temp_output]"

text \<open>Lines 234 to 243: the two handlers do the same.\<close>

definition embed_failed :: "string \<Rightarrow> world \<Rightarrow> (exn + bool) \<times> world" where
  "embed_failed temp_output w =
     (if path_exists w temp_output
      then (case os_remove temp_output w of
              (Inl ex, w1) \<Rightarrow> (Inl ex, w1)
            | (Inr u, w1) \<Rightarrow> (Inr False, w1))
      else (Inr False, w))"

text \<open>Lines 200 to 243.\<close>

definition embed_subtitle :: "env \<Rightarrow> string \<Rightarrow> string \<Rightarrow> world \<Rightarrow> (exn + bool) \<times> world" where
  "embed_subtitle e video_path srt_path w =
     (let temp_output = temp_output_of e video_path;
          cmd = ffmpeg_cmd video_path srt_path temp_output
      in case subprocess_run e True cmd w of
           (Inl ex, w1) \<Rightarrow> embed_failed temp_output w1
         | (Inr r, w1) \<Rightarrow>
             (case shutil_move e temp_output video_path w1 of
                (Inl ex, w2) \<Rightarrow> embed_failed temp_output w2
              | (Inr u, w2) \<Rightarrow> (Inr True, w2)))"

section \<open>ProcessedCheck: \<open>check_if_processed\<close>\<close>

text \<open>\<^verbatim>\<open>str.strip()\<close>.\<close>

definition py_strip :: "string \<Rightarrow> string" where
  "py_strip s = rev (dropWhile is_space (rev (dropWhile is_space s)))"

definition ffprobe_cmd :: "string \<Rightarrow> string list" where
  "ffprobe_cmd video_path =
     [''ffprobe'', ''-v'', ''error'', ''-select_streams'', ''s'',
      ''-show_entries'', ''stream_tags=title'',
      ''-of'', ''default=noprint_wrappers=1:nokey=1'', video_path]"

text \<open>Lines 245 to 275: every exception gives \<^verbatim>\<open>False\<close>.\<close>

definition check_if_processed :: "env \<Rightarrow> string \<Rightarrow> world \<Rightarrow> bool \<times> world" where
  "check_if_processed e video_path w =
     (case subprocess_run e False [''exiftool'', ''-Model'', ''-s3'', video_path] w of
        (Inl ex, w1) \<Rightarrow> (False, w1)
      | (Inr (returncode, out), w1) \<Rightarrow>
          if py_in ''DJI Mini 3 Pro'' (py_strip out) then (True, w1)
          else (case check_ffmpeg e w1 of
                  (Inl ex, w2) \<Rightarrow> (False, w2)
                | (Inr False, w2) \<Rightarrow> (False, w2)
                | (Inr True, w2) \<Rightarrow>
                    (case subprocess_run e False (ffprobe_cmd video_path) w2 of
                       (Inl ex, w3) \<Rightarrow> (False, w3)
                     | (Inr (returncode, out), w3) \<Rightarrow> (py_in ''DJI Telemetry'' out, w3))))"

section \<open>SourceRecycler: \<open>recycle_source\<close>\<close>

text \<open>Lines 338 to 343; 0x22 is the double quote and 0x60 the backtick.\<close>

definition cmd_recycle :: "string \<Rightarrow> string list" where
  "cmd_recycle src_vid =
     (let escaped_path = py_replace [CHR 0x22] [CHR 0x60, CHR 0x22] src_vid
      in [''powershell'', ''-Command'',
          ''Add-Type -AssemblyName Microsoft.VisualBasic; ''
          @ ''[Microsoft.VisualBasic.FileIO.FileSystem]::DeleteFile(''
          @ [CHR 0x22] @ escaped_path @ [CHR 0x22] @ '', ''
          @ [CHR 0x22] @ ''OnlyErrorDialogs'' @ [CHR 0x22] @ '', ''
          @ [CHR 0x22] @ ''SendToRecycleBin'' @ [CHR 0x22] @ '')''])"

text \<open>Lines 318 to 327.\<close>

definition potential_srcs :: "env \<Rightarrow> string \<Rightarrow> string list" where
  "potential_srcs e matched_srt =
     (let src_dir = path_dirname e matched_srt;
          src_base = fst (path_splitext e (path_basename e matched_srt))
      in [path_join e src_dir (src_base @ ''.MP4''),
          path_join e src_dir (src_base @ ''.mp4''),
          path_join e src_dir (src_base @ ''.MOV''),
          path_join e src_dir (src_base @ ''.mov'')])"

text \<open>
  Lines 329 to 349, the loop: the first candidate that exists ends it, either at the
  safety check or after the attempt to recycle it, whose exceptions are all caught.
\<close>

fun recycle_first :: "env \<Rightarrow> string \<Rightarrow> string list \<Rightarrow> world \<Rightarrow> (exn + unit) \<times> world" where
  "recycle_first e export_path [] w = (Inr (), w)"
| "recycle_first e export_path (src_vid # rest) w =
     (if path_exists w src_vid
      then if path_normpath e src_vid = path_normpath e export_path then (Inr (), w)
           else (case subprocess_run e True (cmd_recycle src_vid) w of (r, w1) \<Rightarrow> (Inr (), w1))
      else recycle_first e export_path rest w)"

definition recycle_source :: "env \<Rightarrow> string \<Rightarrow> string \<Rightarrow> world \<Rightarrow> (exn + unit) \<times> world" where
  "recycle_source e matched_srt export_path w =
     recycle_first e export_path (potential_srcs e matched_srt) w"

section \<open>The per-item worker: \<open>process_single_video\<close>\<close>

text \<open>Line 306.\<close>

definition success_status :: "env \<Rightarrow> string \<Rightarrow> dict \<Rightarrow> string" where
  "success_status e filename metadata =
     ''success|'' @ filename @ ''|'' @ get_str e metadata ''datetime'' ''?'' @ ''|''
     @ get_str e metadata ''latitude'' ''0'' @ '','' @ get_str e metadata ''longitude'' ''0''"

text \<open>Lines 310 to 314.\<close>

definition delete_source_step ::
  "env \<Rightarrow> string \<Rightarrow> string \<Rightarrow> bool \<Rightarrow> bool \<Rightarrow> bool \<Rightarrow> string \<Rightarrow> world \<Rightarrow> (exn + string) \<times> world" where
  "delete_source_step e export_path matched_srt delete_source meta_ok srt_ok final_status w =
     (if delete_source \<and> meta_ok \<and> srt_ok
      then (case recycle_source e matched_srt export_path w of
              (Inl ex, w1) \<Rightarrow> (Inl ex, w1)
            | (Inr u, w1) \<Rightarrow> (Inr final_status, w1))
      else (Inr final_status, w))"

text \<open>Lines 293 to 314: what follows the check for an item already processed.\<close>

definition embed_and_inject ::
  "env \<Rightarrow> string \<Rightarrow> string \<Rightarrow> bool \<Rightarrow> bool \<Rightarrow> world \<Rightarrow> (exn + string) \<times> world" where
  "embed_and_inject e export_path matched_srt has_ffmpeg delete_source w =
     (case (if has_ffmpeg then embed_subtitle e export_path matched_srt w else (Inr True, w)) of
        (Inl ex, w1) \<Rightarrow> (Inl ex, w1)
      | (Inr srt_ok, w1) \<Rightarrow>
          (case parse_srt_data (read_text w1 matched_srt) of
             None \<Rightarrow>
               delete_source_step e export_path matched_srt delete_source False srt_ok ''error'' w1
           | Some metadata \<Rightarrow>
               if truthy metadata
               then (case inject_metadata e export_path metadata w1 of
                       (Inl ex, w2) \<Rightarrow> (Inl ex, w2)
                     | (Inr u, w2) \<Rightarrow>
                         delete_source_step e export_path matched_srt delete_source True srt_ok
                           (success_status e (path_basename e export_path) metadata) w2)
               else delete_source_step e export_path matched_srt delete_source False srt_ok
                      ''error'' w1))"

text \<open>
  Lines 279 to 314. Of the eight components of \<^verbatim>\<open>video_info\<close> the source map is not
  used and the two counters are only printed. The function has no handler of its own: an
  exception of a step is the outcome of the call.
\<close>

definition process_single_video ::
  "env \<Rightarrow> string \<Rightarrow> string \<Rightarrow> bool \<Rightarrow> bool \<Rightarrow> bool \<Rightarrow> world \<Rightarrow> (exn + string) \<times> world" where
  "process_single_video e export_path matched_srt has_ffmpeg force delete_source w =
     (if force then embed_and_inject e export_path matched_srt has_ffmpeg delete_source w
      else (case check_if_processed e export_path w of
              (True, w1) \<Rightarrow>
                if delete_source
                then (case recycle_source e matched_srt export_path w1 of
                        (Inl ex, w2) \<Rightarrow> (Inl ex, w2)
                      | (Inr u, w2) \<Rightarrow> (Inr ''already_processed'', w2))
                else (Inr ''already_processed'', w1)
            | (False, w1) \<Rightarrow>
                embed_and_inject e export_path matched_srt has_ffmpeg delete_source w1))"

section \<open>A sample platform\<close>

text \<open>
  A platform for the examples: paths are relative, with single slashes and no dot
  segments, so that normalisation changes nothing; the programs are given.
\<close>

definition sample_basename :: "string \<Rightarrow> string" where
  "sample_basename p = rev (takeWhile (\<lambda>c. c \<noteq> CHR ''/'') (rev p))"

definition sample_dirname :: "string \<Rightarrow> string" where
  "sample_dirname p = rev (drop 1 (dropWhile (\<lambda>c. c \<noteq> CHR ''/'') (rev p)))"

definition sample_join :: "string \<Rightarrow> string \<Rightarrow> string" where
  "sample_join d b = (if d = [] then b else d @ ''/'' @ b)"

definition sample_splitext :: "string \<Rightarrow> string \<times> string" where
  "sample_splitext p =
     (if CHR ''.'' \<in> set p
      then (rev (drop 1 (dropWhile (\<lambda>c. c \<noteq> CHR ''.'') (rev p))),
            CHR ''.'' # rev (takeWhile (\<lambda>c. c \<noteq> CHR ''.'') (rev p)))
      else (p, []))"

definition sample_env :: "(string list \<Rightarrow> fs \<Rightarrow> proc \<times> fs) \<Rightarrow> env" where
  "sample_env programs =
     \<lparr>path_dirname = sample_dirname, path_basename = sample_basename, path_join = sample_join,
      path_splitext = sample_splitext, path_normpath = (\<lambda>p. p), run_program = programs,
      move_fails = (\<lambda>src dst fs. None), float_str = (\<lambda>x. py_fixed 0 4 x)\<rparr>"

lemma star_rests_sound:
  "t \<in> set (star_rests p s) \<Longrightarrow> \<exists>w. s = w @ t \<and> list_all p w"
proof (induction s)
  case Nil
  then show ?case by simp
next
  case (Cons c cs)
  show ?case
  proof (cases "p c \<and> t \<in> set (star_rests p cs)")
    case True
    with Cons.IH obtain w where "cs = w @ t" "list_all p w" by blast
    with True have "c # cs = (c # w) @ t \<and> list_all p (c # w)" by simp
    then show ?thesis by blast
  next
    case False
    with Cons.prems have "t = c # cs" by (auto split: if_splits)
    then have "c # cs = [] @ t \<and> list_all p []" by simp
    then show ?thesis by blast
  qed
qed


lemma rx_match_sound:
  "(g, t) \<in> set (rx_match r s) \<Longrightarrow> \<exists>w. s = w @ t \<and> w \<in> lang r"
proof (induction r arbitrary: s g t)
  case (Atom p)
  then show ?case by (cases s) (auto split: if_splits)
next
  case Eps
  then show ?case by simp
next
  case (Seq a b)
  from Seq.prems obtain g1 t1 g2 where
    a: "(g1, t1) \<in> set (rx_match a s)" and b: "(g2, t) \<in> set (rx_match b t1)"
    by auto
  from Seq.IH(1)[OF a] obtain u where u: "s = u @ t1" "u \<in> lang a" by blast
  from Seq.IH(2)[OF b] obtain v where v: "t1 = v @ t" "v \<in> lang b" by blast
  from u v have "s = (u @ v) @ t \<and> u @ v \<in> lang (Seq a b)" by auto
  then show ?case by blast
next
  case (Alt a b)
  then show ?case by fastforce
next
  case (Star p)
  then have "t \<in> set (star_rests p s)" by auto
  from star_rests_sound[OF this] show ?case by simp
next
  case (Group a)
  then obtain g' where "(g', t) \<in> set (rx_match a s)" by auto
  from Group.IH[OF this] show ?case by simp
qed


lemma rx_match_group:
  "(Some x, t) \<in> set (rx_match r s) \<Longrightarrow> x \<in> glang r"
proof (induction r arbitrary: s x t)
  case (Atom p)
  then show ?case by (cases s) (auto split: if_splits)
next
  case Eps
  then show ?case by simp
next
  case (Seq a b)
  from Seq.prems obtain g1 t1 g2 where
    a: "(g1, t1) \<in> set (rx_match a s)" and b: "(g2, t) \<in> set (rx_match b t1)"
    and p: "pick_group g1 g2 = Some x"
    by auto
  show ?case
  proof (cases g2)
    case None
    with p have "g1 = Some x" by (simp add: pick_group_def)
    with a Seq.IH(1) show ?thesis by auto
  next
    case (Some y)
    with p have "g2 = Some x" by (simp add: pick_group_def)
    with b Seq.IH(2) show ?thesis by auto
  qed
next
  case (Alt a b)
  then show ?case by auto
next
  case (Star p)
  then show ?case by auto
next
  case (Group a)
  then obtain g' where m: "(g', t) \<in> set (rx_match a s)"
    and x: "x = take (length s - length t) s" by auto
  from rx_match_sound[OF m] obtain w where "s = w @ t" "w \<in> lang a" by blast
  with x show ?case by simp
qed


lemma rx_match_always:
  "always_group r \<Longrightarrow> (g, t) \<in> set (rx_match r s) \<Longrightarrow> g \<noteq> None"
proof (induction r arbitrary: s g t)
  case (Seq a b)
  from Seq.prems(2) obtain g1 t1 g2 where
    a: "(g1, t1) \<in> set (rx_match a s)" and b: "(g2, t) \<in> set (rx_match b t1)"
    and p: "g = pick_group g1 g2"
    by auto
  from Seq.prems(1) Seq.IH a b have "g1 \<noteq> None \<or> g2 \<noteq> None" by auto
  with p show ?case by (auto simp: pick_group_def split: option.splits)
next
  case (Alt a b)
  then show ?case by auto
next
  case (Group a)
  then show ?case by auto
qed simp_all


text \<open>A successful search is a match at some suffix of the text, and conversely.\<close>


lemma re_search_None_iff:
  "re_search r s = None \<longleftrightarrow> (\<forall>u. suffix u s \<longrightarrow> rx_match r u = [])"
proof (induction s)
  case Nil
  then show ?case by (auto split: list.splits)
next
  case (Cons c cs)
  show ?case
  proof (cases "rx_match r (c # cs)")
    case Nil
    with Cons.IH show ?thesis by (auto simp: suffix_Cons)
  next
    case (Cons m ms)
    then have a: "re_search r (c # cs) \<noteq> None" by (cases m) simp
    from Cons have b: "suffix (c # cs) (c # cs) \<and> rx_match r (c # cs) \<noteq> []" by simp
    show ?thesis
    proof
      assume "re_search r (c # cs) = None"
      with a show "\<forall>u. suffix u (c # cs) \<longrightarrow> rx_match r u = []" by contradiction
    next
      assume "\<forall>u. suffix u (c # cs) \<longrightarrow> rx_match r u = []"
      with b show "re_search r (c # cs) = None" by blast
    qed
  qed
qed


lemma re_search_Some:
  "re_search r s = Some x \<Longrightarrow> always_group r \<Longrightarrow>
     \<exists>u t. suffix u s \<and> (Some x, t) \<in> set (rx_match r u)"
proof (induction s)
  case Nil
  then obtain g t ms where m: "rx_match r [] = (g, t) # ms"
    and x: "x = (case g of None \<Rightarrow> [] | Some y \<Rightarrow> y)"
    by (auto split: list.splits)
  from m have in_set: "(g, t) \<in> set (rx_match r [])" by simp
  with rx_match_always[OF Nil.prems(2)] x have "g = Some x" by (cases g) auto
  with in_set show ?case by auto
next
  case (Cons c cs)
  show ?case
  proof (cases "rx_match r (c # cs)")
    case Nil
    with Cons.prems have "re_search r cs = Some x" by simp
    from Cons.IH[OF this Cons.prems(2)] show ?thesis by (auto simp: suffix_Cons)
  next
    case (Cons m ms)
    obtain g t where gt: "m = (g, t)" by (cases m)
    with Cons Cons.prems(1) have x: "x = (case g of None \<Rightarrow> [] | Some y \<Rightarrow> y)" by auto
    from Cons gt have in_set: "(g, t) \<in> set (rx_match r (c # cs))" by simp
    with rx_match_always[OF Cons.prems(2)] x have "g = Some x" by (cases g) auto
    with in_set show ?thesis by blast
  qed
qed


lemma re_search_in_glang:
  "re_search r s = Some x \<Longrightarrow> always_group r \<Longrightarrow> x \<in> glang r"
  using re_search_Some rx_match_group by blast


lemma always_group_bracketed [simp]: "always_group (bracketed key val)"
proof -
  have "\<And>r. always_group r \<Longrightarrow> always_group (Seq (lit (CHR ''['' # key)) r)"
    by simp
  then show ?thesis by (simp add: bracketed_def)
qed


lemma glang_lit [simp]: "glang (lit s) = {}"
  by (induction s) auto


lemma glang_bracketed: "glang (bracketed key val) = lang val \<union> glang val"
  by (simp add: bracketed_def)


lemma glang_plus [simp]: "glang (plus p) = {}"
  by (simp add: plus_def)


lemma glang_number [simp]: "glang number_rx = {}"
  by (simp add: number_rx_def)


lemma lang_lit [simp]: "lang (lit s) = {s}"
  by (induction s) auto


lemma lang_plus: "w \<in> lang (plus p) \<longleftrightarrow> w \<noteq> [] \<and> list_all p w"
proof
  assume "w \<in> lang (plus p)"
  then obtain c v where "w = [c] @ v" "p c" "list_all p v" by (auto simp: plus_def)
  then show "w \<noteq> [] \<and> list_all p w" by simp
next
  assume a: "w \<noteq> [] \<and> list_all p w"
  then obtain c v where w: "w = c # v" by (cases w) auto
  with a have "w = [c] @ v \<and> [c] \<in> lang (Atom p) \<and> v \<in> lang (Star p)" by simp
  then show "w \<in> lang (plus p)" unfolding plus_def lang.simps by blast
qed


lemma lang_SeqE:
  assumes "w \<in> lang (Seq a b)"
  obtains u v where "w = u @ v" "u \<in> lang a" "v \<in> lang b"
  using assms by auto


lemma lang_number: "w \<in> lang number_rx \<Longrightarrow> signed_fraction w \<or> plain_digits w"
proof -
  assume "w \<in> lang number_rx"
  then consider
    (frac) "w \<in> lang (Seq (Alt (Atom is_sign) Eps)
                   (Seq (Star is_digit) (Seq (lit [CHR 0x2E]) (plus is_digit))))"
  | (int) "w \<in> lang (plus is_digit)"
    unfolding number_rx_def lang.simps(4) by blast
  then show ?thesis
  proof cases
    case frac
    then obtain sg v where w: "w = sg @ v" and sg: "sg \<in> lang (Alt (Atom is_sign) Eps)"
      and v: "v \<in> lang (Seq (Star is_digit) (Seq (lit [CHR 0x2E]) (plus is_digit)))"
      by (rule lang_SeqE)
    from v obtain ds x where v': "v = ds @ x" and ds: "ds \<in> lang (Star is_digit)"
      and x: "x \<in> lang (Seq (lit [CHR 0x2E]) (plus is_digit))"
      by (rule lang_SeqE)
    from x obtain p fs where x': "x = p @ fs" and p: "p \<in> lang (lit [CHR 0x2E])"
      and fs: "fs \<in> lang (plus is_digit)"
      by (rule lang_SeqE)
    from p have p': "p = [CHR 0x2E]" by simp
    from fs have fs': "fs \<noteq> [] \<and> list_all is_digit fs" by (simp add: lang_plus)
    from ds have ds': "list_all is_digit ds" by simp
    from sg have sg': "sg = [] \<or> (\<exists>c. sg = [c] \<and> is_sign c)" by auto
    from w v' x' p' have "w = sg @ ds @ CHR 0x2E # fs" by simp
    with sg' ds' fs' have "signed_fraction w" unfolding signed_fraction_def by blast
    then show ?thesis ..
  next
    case int
    then show ?thesis by (simp add: lang_plus plain_digits_def)
  qed
qed

lemma not_digit_sign: "is_sign c \<Longrightarrow> \<not> is_digit c"
  by (auto simp: is_sign_def is_digit_def)

lemma not_digit_dot [simp]: "\<not> is_digit (CHR ''.'')"
  by (simp add: is_digit_def)

lemma not_sign_dot [simp]: "\<not> is_sign (CHR ''.'')"
  by (simp add: is_sign_def)

lemma takeWhile_run:
  "list_all p ds \<Longrightarrow> \<not> p c \<Longrightarrow> takeWhile p (ds @ c # r) = ds"
  by (induction ds) auto

lemma dropWhile_run:
  "list_all p ds \<Longrightarrow> \<not> p c \<Longrightarrow> dropWhile p (ds @ c # r) = c # r"
  by (induction ds) auto

lemma takeWhile_all: "list_all p ds \<Longrightarrow> takeWhile p ds = ds"
  by (induction ds) auto

lemma dropWhile_all: "list_all p ds \<Longrightarrow> dropWhile p ds = []"
  by (induction ds) auto

lemma py_float_plain_digits:
  assumes "plain_digits w"
  shows "\<exists>v. py_float w = Inr v"
proof -
  from assms obtain c t where w: "w = c # t" and d: "list_all is_digit (c # t)"
    by (cases w) (auto simp: plain_digits_def)
  from d have "is_digit c" by simp
  then have ns: "\<not> is_sign c" using not_digit_sign by blast
  from d have "takeWhile is_digit (c # t) = c # t" "dropWhile is_digit (c # t) = []"
    by (rule takeWhile_all, rule dropWhile_all)
  with ns w show ?thesis by (simp add: py_float_def Let_def)
qed

lemma py_float_body:
  assumes ds: "list_all is_digit ds" and fs: "fs \<noteq> []" "list_all is_digit fs"
  shows "takeWhile is_digit (ds @ CHR ''.'' # fs) = ds"
    and "dropWhile is_digit (ds @ CHR ''.'' # fs) = CHR ''.'' # fs"
  using ds by (simp_all add: takeWhile_run dropWhile_run)

lemma py_float_signed_fraction:
  assumes "signed_fraction w"
  shows "\<exists>v. py_float w = Inr v"
proof -
  from assms obtain sg ds fs where w: "w = sg @ ds @ CHR ''.'' # fs"
    and sg: "sg = [] \<or> (\<exists>c. sg = [c] \<and> is_sign c)"
    and ds: "list_all is_digit ds" and fs: "fs \<noteq> []" "list_all is_digit fs"
    unfolding signed_fraction_def by blast
  note body = py_float_body[OF ds fs]
  from sg show ?thesis
  proof
    assume "sg = []"
    with w have w': "w = ds @ CHR ''.'' # fs" by simp
    show ?thesis
    proof (cases ds)
      case Nil
      with w' fs show ?thesis by (simp add: py_float_def Let_def)
    next
      case (Cons d ds')
      with ds have "\<not> is_sign d" using not_digit_sign by auto
      with Cons w' body fs show ?thesis by (simp add: py_float_def Let_def)
    qed
  next
    assume "\<exists>c. sg = [c] \<and> is_sign c"
    then obtain c where c: "sg = [c]" "is_sign c" by blast
    with w have "w = c # (ds @ CHR ''.'' # fs)" by simp
    with c body fs show ?thesis by (simp add: py_float_def Let_def)
  qed
qed

lemma py_float_number:
  "w \<in> lang number_rx \<Longrightarrow> \<exists>v. py_float w = Inr v"
  using lang_number py_float_plain_digits py_float_signed_fraction by blast

lemma always_group_alt_rx [simp]: "always_group alt_rx"
  by (simp add: alt_rx_def)

lemma glang_alt_rx: "glang alt_rx = lang number_rx"
  by (simp add: alt_rx_def)

lemma float_of_lat: "re_search lat_rx content = Some g \<Longrightarrow> \<exists>v. py_float g = Inr v"
  using re_search_in_glang[of lat_rx content g] py_float_number
  by (simp add: lat_rx_def glang_bracketed)

lemma float_of_lon: "re_search lon_rx content = Some g \<Longrightarrow> \<exists>v. py_float g = Inr v"
  using re_search_in_glang[of lon_rx content g] py_float_number
  by (simp add: lon_rx_def glang_bracketed)

lemma float_of_alt: "re_search alt_rx content = Some g \<Longrightarrow> \<exists>v. py_float g = Inr v"
  using re_search_in_glang[of alt_rx content g] py_float_number
  by (simp add: glang_alt_rx)

lemma float_of_fnum: "re_search fnum_rx content = Some g \<Longrightarrow> \<exists>v. py_float g = Inr v"
proof -
  assume "re_search fnum_rx content = Some g"
  then have "g \<in> lang (plus is_digit)"
    using re_search_in_glang[of fnum_rx content g] by (simp add: fnum_rx_def glang_bracketed)
  then have "plain_digits g" by (simp add: lang_plus plain_digits_def)
  then show ?thesis by (rule py_float_plain_digits)
qed


lemma set_shutter_other [simp]: "k \<noteq> ''shutter'' \<Longrightarrow> set_shutter m data k = data k"
  by (simp add: set_shutter_def split: option.splits)

lemma set_shutter_key: "set_shutter m data ''shutter'' = None \<longleftrightarrow> m = None \<and> data ''shutter'' = None"
  by (simp add: set_shutter_def split: option.splits)

lemma parse_srt_data_missing:
  assumes "re_search lat_rx content = None \<or> re_search lon_rx content = None"
  shows "parse_srt_data (Inr content) = None"
proof -
  from assms
  have c: "\<And>d. set_coords (re_search lat_rx content) (re_search lon_rx content) d = Inr d"
    by (auto simp: set_coords_def split: option.splits)
  have alt: "\<And>d. \<exists>d'. set_altitude (re_search alt_rx content) d = Inr d'
      \<and> d' ''latitude'' = d ''latitude'' \<and> d' ''longitude'' = d ''longitude''"
  proof -
    fix d :: dict
    show "\<exists>d'. set_altitude (re_search alt_rx content) d = Inr d'
      \<and> d' ''latitude'' = d ''latitude'' \<and> d' ''longitude'' = d ''longitude''"
    proof (cases "re_search alt_rx content")
      case None
      then show ?thesis by (simp add: set_altitude_def)
    next
      case (Some a)
      with float_of_alt obtain z where "py_float a = Inr z" by blast
      with Some show ?thesis by (simp add: set_altitude_def bind_exn_def)
    qed
  qed
  have fn: "\<And>d. \<exists>d'. set_fnum (re_search fnum_rx content) d = Inr d'
      \<and> d' ''latitude'' = d ''latitude'' \<and> d' ''longitude'' = d ''longitude''"
  proof -
    fix d :: dict
    show "\<exists>d'. set_fnum (re_search fnum_rx content) d = Inr d'
      \<and> d' ''latitude'' = d ''latitude'' \<and> d' ''longitude'' = d ''longitude''"
    proof (cases "re_search fnum_rx content")
      case None
      then show ?thesis by (simp add: set_fnum_def)
    next
      case (Some f)
      with float_of_fnum obtain v where "py_float f = Inr v" by blast
      with Some show ?thesis by (simp add: set_fnum_def)
    qed
  qed
  let ?d0 = "case re_search date_rx content of
               Some g \<Rightarrow> Map.empty(''datetime'' \<mapsto> PStr g) | None \<Rightarrow> Map.empty"
  have d0: "?d0 ''latitude'' = None \<and> ?d0 ''longitude'' = None"
    by (simp split: option.splits)
  from alt[of ?d0] obtain d1 where d1: "set_altitude (re_search alt_rx content) ?d0 = Inr d1"
    "d1 ''latitude'' = None" "d1 ''longitude'' = None" using d0 by auto
  let ?d2 = "case re_search iso_rx content of Some i \<Rightarrow> d1(''iso'' \<mapsto> PStr i) | None \<Rightarrow> d1"
  let ?d3 = "set_shutter (re_search shutter_rx content) ?d2"
  have d3: "?d3 ''latitude'' = None \<and> ?d3 ''longitude'' = None"
    using d1 by (simp split: option.splits)
  from fn[of ?d3] obtain d4 where d4: "set_fnum (re_search fnum_rx content) ?d3 = Inr d4"
    "d4 ''latitude'' = None" "d4 ''longitude'' = None" using d3 by auto
  have "parse_srt_text content = Inr d4"
    using c d1(1) d4(1) by (simp add: parse_srt_text_def bind_exn_def Let_def)
  with d4 show ?thesis by (simp add: parse_srt_data_def bind_exn_def)
qed

lemma set_shutter_value:
  "set_shutter m data ''shutter''
     = (case m of None \<Rightarrow> data ''shutter''
        | Some raw \<Rightarrow> Some (PStr (if py_in ''.0'' raw then py_replace ''.0'' [] raw else raw)))"
  by (simp add: set_shutter_def split: option.splits)

lemma parse_srt_data_present:
  assumes la: "re_search lat_rx content = Some la"
      and lo: "re_search lon_rx content = Some lo"
  shows "\<exists>data x y. parse_srt_data (Inr content) = Some data
          \<and> py_float la = Inr x \<and> py_float lo = Inr y
          \<and> data ''latitude'' = Some (PFloat x) \<and> data ''longitude'' = Some (PFloat y)
          \<and> data ''datetime'' = map_option PStr (re_search date_rx content)
          \<and> (data ''altitude'' = None \<longleftrightarrow> re_search alt_rx content = None)
          \<and> data ''iso'' = map_option PStr (re_search iso_rx content)
          \<and> data ''shutter''
              = map_option (\<lambda>raw. PStr (if py_in ''.0'' raw then py_replace ''.0'' [] raw else raw))
                  (re_search shutter_rx content)
          \<and> (data ''fnum'' = None \<longleftrightarrow> re_search fnum_rx content = None)"
proof -
  from float_of_lat[OF la] obtain x where x: "py_float la = Inr x" by blast
  from float_of_lon[OF lo] obtain y where y: "py_float lo = Inr y" by blast
  have alt: "\<And>a. re_search alt_rx content = Some a \<Longrightarrow> \<exists>z. py_float a = Inr z"
    by (rule float_of_alt)
  have fn: "\<And>f. re_search fnum_rx content = Some f \<Longrightarrow> \<exists>v. py_float f = Inr v"
    by (rule float_of_fnum)
  show ?thesis
  proof (cases "re_search alt_rx content")
    case None
    show ?thesis
    proof (cases "re_search fnum_rx content")
      case None
      with \<open>re_search alt_rx content = None\<close> la lo x y show ?thesis
        by (simp add: parse_srt_data_def parse_srt_text_def bind_exn_def Let_def
            set_coords_def set_altitude_def set_fnum_def set_shutter_value
            split: option.splits)
    next
      case (Some f)
      with fn obtain v where "py_float f = Inr v" by blast
      with Some \<open>re_search alt_rx content = None\<close> la lo x y show ?thesis
        by (simp add: parse_srt_data_def parse_srt_text_def bind_exn_def Let_def
            set_coords_def set_altitude_def set_fnum_def set_shutter_value
            split: option.splits)
    qed
  next
    case (Some a)
    with alt obtain z where z: "py_float a = Inr z" by blast
    show ?thesis
    proof (cases "re_search fnum_rx content")
      case None
      with Some z la lo x y show ?thesis
        by (simp add: parse_srt_data_def parse_srt_text_def bind_exn_def Let_def
            set_coords_def set_altitude_def set_fnum_def set_shutter_value
            split: option.splits)
    next
      case f: (Some f)
      with fn obtain v where "py_float f = Inr v" by blast
      with f Some z la lo x y show ?thesis
        by (simp add: parse_srt_data_def parse_srt_text_def bind_exn_def Let_def
            set_coords_def set_altitude_def set_fnum_def set_shutter_value
            split: option.splits)
    qed
  qed
qed




lemma count_processed:
  "processed_count (foldl tally_step t rs) = processed_count t + length (filter (prefix ''success'') rs)"
  by (induction rs arbitrary: t) (auto simp: tally_step_def)

lemma count_already:
  "already_processed_count (foldl tally_step t rs)
     = already_processed_count t
       + length (filter (\<lambda>r. \<not> prefix ''success'' r \<and> r = ''already_processed'') rs)"
  by (induction rs arbitrary: t) (auto simp: tally_step_def)

lemma count_skipped:
  "skipped_count (foldl tally_step t rs)
     = skipped_count t
       + length (filter (\<lambda>r. \<not> prefix ''success'' r \<and> r \<noteq> ''already_processed'') rs)"
  by (induction rs arbitrary: t) (auto simp: tally_step_def)

lemma three_way_partition:
  "length (filter P rs) + length (filter (\<lambda>r. \<not> P r \<and> Q r) rs)
     + length (filter (\<lambda>r. \<not> P r \<and> \<not> Q r) rs) = length rs"
  by (induction rs) auto

lemma length_filter_mset:
  "mset rs = mset rs' \<Longrightarrow> length (filter P rs) = length (filter P rs')"
  by (metis mset_filter size_mset)

lemma tally_counts_sum:
  "processed_count (tally_results results) + already_processed_count (tally_results results)
     + skipped_count (tally_results results) = length results"
  unfolding tally_results_def count_processed count_already count_skipped
  using three_way_partition[of "prefix ''success''" results "\<lambda>r. r = ''already_processed''"]
  by simp

lemma summary_of_mset:
  assumes m: "mset results' = mset results"
  shows "summary_of total_videos results' = summary_of total_videos results"
proof -
  have "processed_count (tally_results results') = processed_count (tally_results results)"
    and "already_processed_count (tally_results results')
           = already_processed_count (tally_results results)"
    unfolding tally_results_def count_processed count_already
    using length_filter_mset[OF m] by simp_all
  then show ?thesis by (simp add: summary_of_def Let_def)
qed

text \<open>
  C9. When the run produced one outcome per matched work item, the numbers of the summary
  satisfy total = success + alreadyProcessed + errorOrNoMatch; the third number is the
  counter of the outcomes that are neither a success nor already-processed, so each
  outcome is counted by exactly one of the three counters; and the numbers depend only on
  the multiset of the outcomes, not on their order.
\<close>

theorem summary_counts_partition_outcomes:
  "length results = total_videos \<Longrightarrow>
     total (summary_of total_videos results)
       = success (summary_of total_videos results)
         + already_processed (summary_of total_videos results)
         + error_or_no_match (summary_of total_videos results)
     \<and> success (summary_of total_videos results) = int (processed_count (tally_results results))
     \<and> already_processed (summary_of total_videos results)
         = int (already_processed_count (tally_results results))
     \<and> error_or_no_match (summary_of total_videos results)
         = int (skipped_count (tally_results results))
     \<and> processed_count (tally_results results) + already_processed_count (tally_results results)
         + skipped_count (tally_results results) = length results
     \<and> (\<forall>results'. mset results' = mset results \<longrightarrow>
           summary_of total_videos results' = summary_of total_videos results)"
proof -
  assume len: "length results = total_videos"
  have sum: "processed_count (tally_results results)
      + already_processed_count (tally_results results)
      + skipped_count (tally_results results) = total_videos"
    using tally_counts_sum[of results] len by simp
  have a: "total (summary_of total_videos results)
       = success (summary_of total_videos results)
         + already_processed (summary_of total_videos results)
         + error_or_no_match (summary_of total_videos results)"
    by (simp add: summary_of_def Let_def)
  have b: "success (summary_of total_videos results)
       = int (processed_count (tally_results results))"
    by (simp add: summary_of_def Let_def)
  have c: "already_processed (summary_of total_videos results)
       = int (already_processed_count (tally_results results))"
    by (simp add: summary_of_def Let_def)
  have d: "error_or_no_match (summary_of total_videos results)
       = int (skipped_count (tally_results results))"
    using sum by (simp add: summary_of_def Let_def)
  have e: "\<forall>results'. mset results' = mset results \<longrightarrow>
      summary_of total_videos results' = summary_of total_videos results"
    using summary_of_mset by blast
  from a b c d e tally_counts_sum[of results] show ?thesis by blast
qed

theorem summary_counts_partition_outcomes_witness:
  "summary_of 3 [''success|a.mp4|2025-08-09 18:53:47|35.6812,139.7671'', ''error'',
                 ''already_processed'']
     = \<lparr>total = 3, success = 1, already_processed = 1, error_or_no_match = 1\<rparr>
   \<and> summary_of 3 [''already_processed'', ''error'',
                    ''success|a.mp4|2025-08-09 18:53:47|35.6812,139.7671'']
     = \<lparr>total = 3, success = 1, already_processed = 1, error_or_no_match = 1\<rparr>"
  using summary_counts_partition_outcomes
    [of "[''success|a.mp4|2025-08-09 18:53:47|35.6812,139.7671'', ''error'',
          ''already_processed'']" 3]
  by (simp add: summary_of_def tally_results_def tally_step_def Let_def)

lemma py_sorted_len_reverse_stable:
  "filter (\<lambda>y. length y = k) (py_sorted_len_reverse ms) = filter (\<lambda>y. length y = k) ms"
proof -
  have "filter (\<lambda>y. length y = k) (rev (sort_key length (rev ms)))
          = rev (filter (\<lambda>y. length y = k) (sort_key length (rev ms)))"
    by (simp add: rev_filter)
  also have "\<dots> = rev (filter (\<lambda>y. length y = k) (rev ms))"
    by (simp only: sort_key_stable)
  also have "\<dots> = filter (\<lambda>y. length y = k) ms"
    by (simp add: rev_filter)
  finally show ?thesis by (simp add: py_sorted_len_reverse_def)
qed

lemma py_sorted_len_reverse_head_max:
  assumes "py_sorted_len_reverse ms = b # rest"
  shows "\<forall>m\<in>set ms. length m \<le> length b"
proof -
  from assms have "rev (sort_key length (rev ms)) = b # rest"
    by (simp add: py_sorted_len_reverse_def)
  then have zs: "sort_key length (rev ms) = rev rest @ [b]"
    by (metis rev_rev_ident rev.simps(2))
  have "sorted (map length (sort_key length (rev ms)))" by (rule sorted_sort_key)
  with zs have "\<forall>z\<in>set (rev rest). length z \<le> length b"
    by (simp add: sorted_append)
  moreover have "set ms = set (rev rest @ [b])"
    using zs by (metis set_rev set_sort)
  ultimately show ?thesis by auto
qed

lemma py_sorted_len_reverse_first_longest:
  assumes "ms \<noteq> []"
  shows "\<exists>b rest us vs. py_sorted_len_reverse ms = b # rest \<and> ms = us @ b # vs
           \<and> (\<forall>u\<in>set us. length u < length b) \<and> (\<forall>v\<in>set vs. length v \<le> length b)"
proof -
  have "length (py_sorted_len_reverse ms) = length ms"
    by (simp add: py_sorted_len_reverse_def)
  with assms have "py_sorted_len_reverse ms \<noteq> []"
    by (metis length_0_conv)
  then obtain b rest where br: "py_sorted_len_reverse ms = b # rest"
    by (cases "py_sorted_len_reverse ms") auto
  have mx: "\<forall>m\<in>set ms. length m \<le> length b"
    by (rule py_sorted_len_reverse_head_max[OF br])
  have "filter (\<lambda>y. length y = length b) ms
          = filter (\<lambda>y. length y = length b) (b # rest)"
    using py_sorted_len_reverse_stable[of "length b" ms] br by simp
  then have "filter (\<lambda>y. length y = length b) ms
          = b # filter (\<lambda>y. length y = length b) rest"
    by simp
  then obtain us vs where ms: "ms = us @ b # vs"
    and us: "\<forall>u\<in>set us. length u \<noteq> length b"
    by (blast dest: filter_eq_ConsD)
  have lt: "\<forall>u\<in>set us. length u < length b"
  proof
    fix u assume u: "u \<in> set us"
    with ms have "u \<in> set ms" by simp
    with mx have "length u \<le> length b" by blast
    moreover from us u have "length u \<noteq> length b" by blast
    ultimately show "length u < length b" by linarith
  qed
  have le: "\<forall>v\<in>set vs. length v \<le> length b"
  proof
    fix v assume "v \<in> set vs"
    with ms have "v \<in> set ms" by simp
    with mx show "length v \<le> length b" by blast
  qed
  from br ms lt le show ?thesis by blast
qed

lemma filter_eq_append_ConsD:
  "filter Q xs = us @ b # vs \<Longrightarrow>
     \<exists>pre post. xs = pre @ b # post \<and> filter Q pre = us \<and> filter Q post = vs \<and> Q b"
proof (induction xs arbitrary: us)
  case Nil
  then show ?case by simp
next
  case (Cons x xs)
  show ?case
  proof (cases "Q x")
    case False
    with Cons.prems have "filter Q xs = us @ b # vs" by simp
    from Cons.IH[OF this] obtain pre post where
      "xs = pre @ b # post" "filter Q pre = us" "filter Q post = vs" "Q b" by blast
    with False have "x # xs = (x # pre) @ b # post \<and> filter Q (x # pre) = us
        \<and> filter Q post = vs \<and> Q b" by simp
    then show ?thesis by blast
  next
    case True
    show ?thesis
    proof (cases us)
      case Nil
      with True Cons.prems have "x = b" "filter Q xs = vs" by simp_all
      with True have "x # xs = [] @ b # xs \<and> filter Q [] = [] \<and> filter Q xs = vs \<and> Q b"
        by simp
      with Nil show ?thesis by blast
    next
      case (Cons u us')
      with True Cons.prems have xu: "x = u" and f: "filter Q xs = us' @ b # vs" by simp_all
      from Cons.IH[OF f] obtain pre post where
        "xs = pre @ b # post" "filter Q pre = us'" "filter Q post = vs" "Q b" by blast
      with True xu Cons have "x # xs = (x # pre) @ b # post \<and> filter Q (x # pre) = us
          \<and> filter Q post = vs \<and> Q b" by simp
      then show ?thesis by blast
    qed
  qed
qed

text \<open>
  C6. When the base name of the export is not itself a key of the index and some key is a
  substring of it, the matcher selects a key that is a substring of the base name, that is
  at least as long as every other such key, and strictly longer than every such key before
  it in the iteration order of the index: the longest matching key, and among the longest
  the first. The work item carries the path recorded for that key.
\<close>

theorem match_srt_longest_first:
  assumes "map_of source_map base_name = None"
      and "matches_of source_map base_name \<noteq> []"
  shows "\<exists>best pre post.
           map fst source_map = pre @ best # post
           \<and> py_in best base_name
           \<and> (\<forall>k\<in>set pre. py_in k base_name \<longrightarrow> length k < length best)
           \<and> (\<forall>k\<in>set post. py_in k base_name \<longrightarrow> length k \<le> length best)
           \<and> match_srt source_map base_name = map_of source_map best"
proof -
  let ?ms = "matches_of source_map base_name"
  from py_sorted_len_reverse_first_longest[OF assms(2)] obtain b rest us vs where
    hd: "py_sorted_len_reverse ?ms = b # rest" and ms: "?ms = us @ b # vs"
    and us: "\<forall>u\<in>set us. length u < length b" and vs: "\<forall>v\<in>set vs. length v \<le> length b"
    by blast
  from ms have "filter (\<lambda>key. py_in key base_name) (map fst source_map) = us @ b # vs"
    by (simp add: matches_of_def)
  from filter_eq_append_ConsD[OF this] obtain pre post where
    keys: "map fst source_map = pre @ b # post"
    and pre: "filter (\<lambda>key. py_in key base_name) pre = us"
    and post: "filter (\<lambda>key. py_in key base_name) post = vs"
    and b: "py_in b base_name" by blast
  from pre us have p1: "\<forall>k\<in>set pre. py_in k base_name \<longrightarrow> length k < length b" by auto
  from post vs have p2: "\<forall>k\<in>set post. py_in k base_name \<longrightarrow> length k \<le> length b" by auto
  from assms hd have "match_srt source_map base_name = map_of source_map b"
    by (simp add: match_srt_def Let_def)
  with keys b p1 p2 show ?thesis by blast
qed


theorem match_srt_longest_first_witness:
  "match_srt [(''dji_0001'', ''src/DJI_0001.SRT''), (''dji_0001_edit'', ''src/DJI_0001_edit.SRT'')]
     ''dji_0001_edit_final'' = Some ''src/DJI_0001_edit.SRT''
   \<and> match_srt [(''dji_0001_edit'', ''src/DJI_0001_edit.SRT''), (''dji_0001'', ''src/DJI_0001.SRT'')]
     ''dji_0001_edit_final'' = Some ''src/DJI_0001_edit.SRT''
   \<and> match_srt [(''dji_0002'', ''src/a/DJI_0002.SRT''), (''dji_0001'', ''src/b/DJI_0001.SRT'')]
     ''dji_0001dji_0002'' = Some ''src/a/DJI_0002.SRT''"
proof -
  have a: "map_of [(''dji_0001'', ''src/DJI_0001.SRT''), (''dji_0001_edit'', ''src/DJI_0001_edit.SRT'')]
     ''dji_0001_edit_final'' = None"
    by simp
  have b: "matches_of [(''dji_0001'', ''src/DJI_0001.SRT''), (''dji_0001_edit'', ''src/DJI_0001_edit.SRT'')]
     ''dji_0001_edit_final'' = [''dji_0001'', ''dji_0001_edit'']"
    by code_simp
  have c: "match_srt [(''dji_0001'', ''src/DJI_0001.SRT''), (''dji_0001_edit'', ''src/DJI_0001_edit.SRT'')]
     ''dji_0001_edit_final'' = Some ''src/DJI_0001_edit.SRT''"
    by code_simp
  have d: "match_srt [(''dji_0001_edit'', ''src/DJI_0001_edit.SRT''), (''dji_0001'', ''src/DJI_0001.SRT'')]
     ''dji_0001_edit_final'' = Some ''src/DJI_0001_edit.SRT''"
    by code_simp
  have e: "match_srt [(''dji_0002'', ''src/a/DJI_0002.SRT''), (''dji_0001'', ''src/b/DJI_0001.SRT'')]
     ''dji_0001dji_0002'' = Some ''src/a/DJI_0002.SRT''"
    by code_simp
  from b have ne: "matches_of [(''dji_0001'', ''src/DJI_0001.SRT''), (''dji_0001_edit'', ''src/DJI_0001_edit.SRT'')]
     ''dji_0001_edit_final'' \<noteq> []"
    by simp
  from match_srt_longest_first[OF a ne] obtain best where
    "match_srt [(''dji_0001'', ''src/DJI_0001.SRT''), (''dji_0001_edit'', ''src/DJI_0001_edit.SRT'')]
       ''dji_0001_edit_final''
     = map_of [(''dji_0001'', ''src/DJI_0001.SRT''), (''dji_0001_edit'', ''src/DJI_0001_edit.SRT'')] best"
    by blast
  with c d e show ?thesis by simp
qed

lemma all_tokens_suffix:
  "all_tokens key P s \<Longrightarrow> suffix u s \<Longrightarrow> prefix key u \<Longrightarrow> u \<noteq> [] \<Longrightarrow> P (drop (length key) u)"
proof (induction s)
  case Nil
  then show ?case by simp
next
  case (Cons c cs)
  from Cons.prems(2) consider "u = c # cs" | "suffix u cs" by (auto simp: suffix_Cons)
  then show ?case
  proof cases
    case 1
    with Cons.prems(1,3) show ?thesis by simp
  next
    case 2
    from Cons.prems(1) have "all_tokens key P cs" by simp
    from Cons.IH[OF this 2 Cons.prems(3,4)] show ?thesis .
  qed
qed

lemma lang_bracketed:
  assumes "w \<in> lang (bracketed key val)"
  obtains a b g where "w = (CHR ''['' # key) @ a @ CHR '':'' # b @ g @ [CHR '']'']"
    and "list_all is_space a" and "list_all is_space b" and "g \<in> lang val"
proof -
  from assms obtain k r1 where w: "w = k @ r1" and k: "k \<in> lang (lit (CHR ''['' # key))"
    and r1: "r1 \<in> lang (Seq (Star is_space) (Seq (lit '':'')
               (Seq (Star is_space) (Seq (Group val) (lit '']'')))))"
    unfolding bracketed_def by (rule lang_SeqE)
  from r1 obtain a r2 where r1': "r1 = a @ r2" and a: "a \<in> lang (Star is_space)"
    and r2: "r2 \<in> lang (Seq (lit '':'') (Seq (Star is_space) (Seq (Group val) (lit '']''))))"
    by (rule lang_SeqE)
  from r2 obtain c r3 where r2': "r2 = c @ r3" and c: "c \<in> lang (lit '':'')"
    and r3: "r3 \<in> lang (Seq (Star is_space) (Seq (Group val) (lit '']'')))"
    by (rule lang_SeqE)
  from r3 obtain b r4 where r3': "r3 = b @ r4" and b: "b \<in> lang (Star is_space)"
    and r4: "r4 \<in> lang (Seq (Group val) (lit '']''))"
    by (rule lang_SeqE)
  from r4 obtain g e where r4': "r4 = g @ e" and g: "g \<in> lang (Group val)"
    and e: "e \<in> lang (lit '']'')"
    by (rule lang_SeqE)
  from k have k': "k = CHR ''['' # key" by (simp only: lang_lit singleton_iff)
  from c have c': "c = '':''" by (simp only: lang_lit singleton_iff)
  from e have e': "e = '']''" by (simp only: lang_lit singleton_iff)
  from w r1' r2' r3' r4' k' c' e'
  have "w = (CHR ''['' # key) @ a @ CHR '':'' # b @ g @ [CHR '']'']" by simp
  moreover from a have "list_all is_space a" by simp
  moreover from b have "list_all is_space b" by simp
  moreover from g have "g \<in> lang val" by simp
  ultimately show ?thesis by (rule that)
qed

lemma not_space_colon [simp]: "\<not> is_space (CHR '':'')"
  by (simp add: is_space_def)

lemma not_space_minus [simp]: "\<not> is_space (CHR ''-'')"
  by (simp add: is_space_def)

lemma not_digit_minus [simp]: "\<not> is_digit (CHR ''-'')"
  by (simp add: is_digit_def)

lemma number_not_negative_int:
  assumes g: "g \<in> lang number_rx" and a: "list_all is_space a" and b: "list_all is_space b"
  shows "\<not> negative_int_value (a @ CHR '':'' # b @ g @ CHR '']'' # t)"
proof
  assume n: "negative_int_value (a @ CHR '':'' # b @ g @ CHR '']'' # t)"
  have d1: "dropWhile is_space (a @ CHR '':'' # b @ g @ CHR '']'' # t)
              = CHR '':'' # b @ g @ CHR '']'' # t"
    using a by (simp add: dropWhile_run)
  from n d1 have n2:
    "case dropWhile is_space (b @ g @ CHR '']'' # t) of
       [] \<Rightarrow> False
     | sg # r2 \<Rightarrow> sg = CHR ''-'' \<and> takeWhile is_digit r2 \<noteq> [] \<and>
         (case dropWhile is_digit r2 of [] \<Rightarrow> False | e # _ \<Rightarrow> e = CHR '']'')"
    by (simp add: negative_int_value_def)
  from lang_number[OF g] show False
  proof
    assume "plain_digits g"
    then obtain h g' where hg: "g = h # g'" and h: "is_digit h"
      by (cases g) (auto simp: plain_digits_def)
    from h have hs: "\<not> is_space h" by (auto simp: is_digit_def is_space_def)
    from h have hm: "h \<noteq> CHR ''-''" by (auto simp: is_digit_def)
    have "dropWhile is_space (b @ h # g' @ CHR '']'' # t) = h # g' @ CHR '']'' # t"
      using b hs by (rule dropWhile_run)
    with n2 hg hm show False by simp
  next
    assume "signed_fraction g"
    then obtain sg ds fs where gg: "g = sg @ ds @ CHR ''.'' # fs"
      and sg: "sg = [] \<or> (\<exists>c. sg = [c] \<and> is_sign c)"
      and ds: "list_all is_digit ds" and fs: "fs \<noteq> []" "list_all is_digit fs"
      unfolding signed_fraction_def by blast
    from sg show False
    proof
      assume e: "sg = []"
      show False
      proof (cases ds)
        case Nil
        have "dropWhile is_space (b @ CHR ''.'' # fs @ CHR '']'' # t)
                = CHR ''.'' # fs @ CHR '']'' # t"
          using b by (rule dropWhile_run) (simp add: is_space_def)
        with n2 gg e Nil show False by simp
      next
        case (Cons h ds')
        with ds have h: "is_digit h" by simp
        from h have hs: "\<not> is_space h" by (auto simp: is_digit_def is_space_def)
        from h have hm: "h \<noteq> CHR ''-''" by (auto simp: is_digit_def)
        have "dropWhile is_space (b @ h # ds' @ CHR ''.'' # fs @ CHR '']'' # t)
                = h # ds' @ CHR ''.'' # fs @ CHR '']'' # t"
          using b hs by (rule dropWhile_run)
        with n2 gg e Cons hm show False by simp
      qed
    next
      assume "\<exists>c. sg = [c] \<and> is_sign c"
      then obtain c where c: "sg = [c]" "is_sign c" by blast
      from c(2) have cs: "\<not> is_space c" by (auto simp: is_sign_def is_space_def)
      have "dropWhile is_space (b @ c # ds @ CHR ''.'' # fs @ CHR '']'' # t)
              = c # ds @ CHR ''.'' # fs @ CHR '']'' # t"
        using b cs by (rule dropWhile_run)
      with n2 gg c have "case dropWhile is_digit (ds @ CHR ''.'' # fs @ CHR '']'' # t) of
                           [] \<Rightarrow> False | e # _ \<Rightarrow> e = CHR '']''"
        by simp
      moreover have "dropWhile is_digit (ds @ CHR ''.'' # fs @ CHR '']'' # t)
                       = CHR ''.'' # fs @ CHR '']'' # t"
        using ds by (rule dropWhile_run) simp
      ultimately show False by simp
    qed
  qed
qed

lemma negative_int_tokens_no_match:
  assumes "all_tokens (CHR ''['' # key) negative_int_value content"
  shows "re_search (bracketed key number_rx) content = None"
proof -
  have "\<forall>u. suffix u content \<longrightarrow> rx_match (bracketed key number_rx) u = []"
  proof (intro allI impI)
    fix u assume u: "suffix u content"
    show "rx_match (bracketed key number_rx) u = []"
    proof (rule ccontr)
      assume "rx_match (bracketed key number_rx) u \<noteq> []"
      then obtain m where m: "m \<in> set (rx_match (bracketed key number_rx) u)"
        by (cases "rx_match (bracketed key number_rx) u") auto
      obtain g0 t where "m = (g0, t)" by (cases m)
      with m have "(g0, t) \<in> set (rx_match (bracketed key number_rx) u)" by simp
      from rx_match_sound[OF this] obtain w where uw: "u = w @ t"
        and w: "w \<in> lang (bracketed key number_rx)" by blast
      from w obtain a b g where
        w': "w = (CHR ''['' # key) @ a @ CHR '':'' # b @ g @ [CHR '']'']"
        and a: "list_all is_space a" and b: "list_all is_space b"
        and g: "g \<in> lang number_rx"
        by (rule lang_bracketed)
      from uw w' have ueq: "u = (CHR ''['' # key) @ (a @ CHR '':'' # b @ g @ CHR '']'' # t)"
        by simp
      then have pre: "prefix (CHR ''['' # key) u" by (metis prefixI)
      from ueq have ne: "u \<noteq> []" by simp
      from all_tokens_suffix[OF assms u pre ne]
      have "negative_int_value (drop (length (CHR ''['' # key)) u)" .
      with ueq have "negative_int_value (a @ CHR '':'' # b @ g @ CHR '']'' # t)"
        by (metis append_eq_conv_conj)
      with number_not_negative_int[OF g a b] show False by blast
    qed
  qed
  then show ?thesis by (simp add: re_search_None_iff)
qed

text \<open>
  C10. When every latitude token of the text (or every longitude token) carries a negative
  integer without a decimal point, as in \<^verbatim>\<open>[latitude: -35]\<close>, the coordinate pattern has
  no match in the text, because a sign is accepted only in front of a number with a decimal
  point; \<open>parse_srt_data\<close> then returns \<open>None\<close>, although the token is present.
\<close>

theorem negative_integer_coordinate_discards_record:
  assumes "all_tokens ''[latitude'' negative_int_value content
           \<or> all_tokens ''[longitude'' negative_int_value content"
  shows "(all_tokens ''[latitude'' negative_int_value content
            \<longrightarrow> re_search lat_rx content = None)
       \<and> (all_tokens ''[longitude'' negative_int_value content
            \<longrightarrow> re_search lon_rx content = None)
       \<and> parse_srt_data (Inr content) = None"
proof -
  have la: "all_tokens ''[latitude'' negative_int_value content
              \<Longrightarrow> re_search lat_rx content = None"
    unfolding lat_rx_def by (rule negative_int_tokens_no_match)
  have lo: "all_tokens ''[longitude'' negative_int_value content
              \<Longrightarrow> re_search lon_rx content = None"
    unfolding lon_rx_def by (rule negative_int_tokens_no_match)
  from assms have "re_search lat_rx content = None \<or> re_search lon_rx content = None"
  proof
    assume "all_tokens ''[latitude'' negative_int_value content"
    from la[OF this] show ?thesis ..
  next
    assume "all_tokens ''[longitude'' negative_int_value content"
    from lo[OF this] show ?thesis ..
  qed
  from parse_srt_data_missing[OF this] have p: "parse_srt_data (Inr content) = None" .
  show ?thesis
  proof (intro conjI impI)
    assume "all_tokens ''[latitude'' negative_int_value content"
    then show "re_search lat_rx content = None" by (rule la)
  next
    assume "all_tokens ''[longitude'' negative_int_value content"
    then show "re_search lon_rx content = None" by (rule lo)
  next
    show "parse_srt_data (Inr content) = None" by (rule p)
  qed
qed

theorem negative_integer_coordinate_discards_record_witness:
  "sublist ''[latitude'' ''2025-08-09 18:53:47 [latitude: -35] [longitude: 139.7671]''
   \<and> re_search lat_rx ''2025-08-09 18:53:47 [latitude: -35] [longitude: 139.7671]'' = None
   \<and> re_search lon_rx ''2025-08-09 18:53:47 [latitude: -35] [longitude: 139.7671]''
       = Some ''139.7671''
   \<and> parse_srt_data (Inr ''2025-08-09 18:53:47 [latitude: -35] [longitude: 139.7671]'') = None"
proof -
  have t: "all_tokens ''[latitude'' negative_int_value
             ''2025-08-09 18:53:47 [latitude: -35] [longitude: 139.7671]''"
    by code_simp
  have s: "sublist ''[latitude'' ''2025-08-09 18:53:47 [latitude: -35] [longitude: 139.7671]''"
    by code_simp
  have l: "re_search lon_rx ''2025-08-09 18:53:47 [latitude: -35] [longitude: 139.7671]''
       = Some ''139.7671''"
    by code_simp
  from t have "all_tokens ''[latitude'' negative_int_value
             ''2025-08-09 18:53:47 [latitude: -35] [longitude: 139.7671]''
           \<or> all_tokens ''[longitude'' negative_int_value
             ''2025-08-09 18:53:47 [latitude: -35] [longitude: 139.7671]''" ..
  from negative_integer_coordinate_discards_record[OF this] t s l
  show ?thesis by simp
qed

section \<open>Shutter normalisation\<close>

lemma py_replace_no_occurrence:
  "old \<noteq> [] \<Longrightarrow> \<not> sublist old s \<Longrightarrow> py_replace old new s = s"
proof (induction s)
  case Nil
  then show ?case by (simp add: py_replace.simps)
next
  case (Cons c cs)
  from Cons.prems(2) have np: "\<not> prefix old (c # cs)"
    by (metis prefix_imp_sublist)
  from Cons.prems(2) have "\<not> sublist old cs"
    by (metis sublist_Cons_right)
  with Cons.IH Cons.prems(1) have "py_replace old new cs = cs" by simp
  with np Cons.prems(1) show ?case by (simp add: py_replace.simps[of old new "c # cs"])
qed

lemma sublist_drop: "sublist old (drop n s) \<Longrightarrow> sublist old s"
  by (metis append_take_drop_id sublist_appendI sublist_order.order.trans suffix_drop suffix_imp_sublist)

lemma py_replace_single_occurrence:
  "old \<noteq> [] \<Longrightarrow> \<not> sublist old (strip_once old s) \<Longrightarrow> py_replace old [] s = strip_once old s"
proof (induction s)
  case Nil
  then show ?case by (simp add: py_replace.simps)
next
  case (Cons c cs)
  show ?case
  proof (cases "prefix old (c # cs)")
    case True
    with Cons.prems(2) have "\<not> sublist old (drop (length old) (c # cs))" by simp
    from py_replace_no_occurrence[OF Cons.prems(1) this]
    have "py_replace old [] (drop (length old) (c # cs)) = drop (length old) (c # cs)" .
    with True Cons.prems(1) show ?thesis by (simp add: py_replace.simps[of old "[]" "c # cs"])
  next
    case False
    with Cons.prems(2) have "\<not> sublist old (c # strip_once old cs)" by simp
    then have "\<not> sublist old (strip_once old cs)" by (metis sublist_Cons_right)
    with Cons.IH Cons.prems(1) have "py_replace old [] cs = strip_once old cs" by simp
    with False Cons.prems(1) show ?thesis by (simp add: py_replace.simps[of old "[]" "c # cs"])
  qed
qed


lemma shutter_of_present:
  assumes "re_search lat_rx content = Some la" and "re_search lon_rx content = Some lo"
  shows "shutter_of content
           = map_option (\<lambda>raw. PStr (if py_in ''.0'' raw then py_replace ''.0'' [] raw else raw))
               (re_search shutter_rx content)"
  using parse_srt_data_present[OF assms] by (elim exE conjE) (simp add: shutter_of_def)

lemma shutter_of_replace:
  assumes "re_search lat_rx content = Some la" and "re_search lon_rx content = Some lo"
      and "re_search shutter_rx content = Some raw"
  shows "shutter_of content = Some (PStr (py_replace ''.0'' [] raw))"
proof (cases "py_in ''.0'' raw")
  case True
  with shutter_of_present[OF assms(1,2)] assms(3) show ?thesis by simp
next
  case False
  then have "py_replace ''.0'' [] raw = raw"
    by (simp add: py_in_def py_replace_no_occurrence)
  with False shutter_of_present[OF assms(1,2)] assms(3) show ?thesis by simp
qed

text \<open>
  C8, as amended. When the record is returned and the shutter pattern captured \<open>raw\<close>,
  the shutter value is \<open>raw\<close> with every occurrence of \<^verbatim>\<open>.0\<close> removed, as
  \<^verbatim>\<open>str.replace\<close> removes them (scanning from the left, occurrences not overlapping).
  A raw value without \<^verbatim>\<open>.0\<close> is kept verbatim, and when removing the leftmost
  occurrence leaves no further one, the value is \<open>raw\<close> with that occurrence stripped once.
\<close>

theorem shutter_replace_all_occurrences:
  assumes "re_search lat_rx content = Some la" and "re_search lon_rx content = Some lo"
      and "re_search shutter_rx content = Some raw"
  shows "shutter_of content = Some (PStr (py_replace ''.0'' [] raw))
       \<and> (\<not> py_in ''.0'' raw \<longrightarrow> shutter_of content = Some (PStr raw))
       \<and> (\<not> py_in ''.0'' (strip_once ''.0'' raw)
            \<longrightarrow> shutter_of content = Some (PStr (strip_once ''.0'' raw)))"
proof (intro conjI impI)
  show r: "shutter_of content = Some (PStr (py_replace ''.0'' [] raw))"
    by (rule shutter_of_replace[OF assms])
  {
    assume "\<not> py_in ''.0'' raw"
    then have "py_replace ''.0'' [] raw = raw"
      by (simp add: py_in_def py_replace_no_occurrence)
    with r show "shutter_of content = Some (PStr raw)" by simp
  }
  {
    assume "\<not> py_in ''.0'' (strip_once ''.0'' raw)"
    then have "py_replace ''.0'' [] raw = strip_once ''.0'' raw"
      by (simp add: py_in_def py_replace_single_occurrence)
    with r show "shutter_of content = Some (PStr (strip_once ''.0'' raw))" by simp
  }
qed

theorem shutter_replace_all_occurrences_witness:
  "shutter_of ''[latitude: 35.6812] [longitude: 139.7671] [shutter : 1/160.0]''
     = Some (PStr ''1/160'')"
proof -
  have la: "re_search lat_rx ''[latitude: 35.6812] [longitude: 139.7671] [shutter : 1/160.0]''
              = Some ''35.6812''"
    by code_simp
  have lo: "re_search lon_rx ''[latitude: 35.6812] [longitude: 139.7671] [shutter : 1/160.0]''
              = Some ''139.7671''"
    by code_simp
  have sh: "re_search shutter_rx ''[latitude: 35.6812] [longitude: 139.7671] [shutter : 1/160.0]''
              = Some ''1/160.0''"
    by code_simp
  have r: "py_replace ''.0'' [] ''1/160.0'' = ''1/160''"
    by code_simp
  from shutter_replace_all_occurrences[OF la lo sh] r show ?thesis by simp
qed

text \<open>
  C8 as stated fails: the raw value \<^verbatim>\<open>1.0/2.0\<close> becomes \<^verbatim>\<open>1/2\<close>, both occurrences
  removed, where stripping once gives \<^verbatim>\<open>1/2.0\<close>.
\<close>

theorem shutter_strip_once_counterexample:
  "re_search shutter_rx ''[latitude: 35.6812] [longitude: 139.7671] [shutter : 1.0/2.0]''
     = Some ''1.0/2.0''
   \<and> shutter_of ''[latitude: 35.6812] [longitude: 139.7671] [shutter : 1.0/2.0]''
       = Some (PStr ''1/2'')
   \<and> strip_once ''.0'' ''1.0/2.0'' = ''1/2.0''"
proof -
  have la: "re_search lat_rx ''[latitude: 35.6812] [longitude: 139.7671] [shutter : 1.0/2.0]''
              = Some ''35.6812''"
    by code_simp
  have lo: "re_search lon_rx ''[latitude: 35.6812] [longitude: 139.7671] [shutter : 1.0/2.0]''
              = Some ''139.7671''"
    by code_simp
  have sh: "re_search shutter_rx ''[latitude: 35.6812] [longitude: 139.7671] [shutter : 1.0/2.0]''
              = Some ''1.0/2.0''"
    by code_simp
  have r: "py_replace ''.0'' [] ''1.0/2.0'' = ''1/2''"
    by code_simp
  have o: "strip_once ''.0'' ''1.0/2.0'' = ''1/2.0''"
    by code_simp
  from shutter_of_replace[OF la lo sh] r sh o show ?thesis by simp
qed


section \<open>CoordinateFormatter: the width of the altitude field\<close>

lemma replicate_numeral_unfold:
  "replicate (numeral k) x = x # replicate (pred_numeral k) x"
  by (simp add: numeral_eq_Suc)

lemma py_fixed_digits:
  "0 \<le> x \<Longrightarrow> prec \<noteq> 0 \<Longrightarrow> nat (round_half_even (x * 10 ^ prec)) = n \<Longrightarrow>
   str_nat (n div 10 ^ prec) = ip \<Longrightarrow> str_nat (n mod 10 ^ prec) = fp \<Longrightarrow>
   py_fixed width prec x = zfill width (ip @ ''.'' @ zfill prec fp)"
  by (auto simp add: py_fixed_def Let_def)

lemma py_fixed_lat_1: "py_fixed 8 5 1 = ''01.00000''"
proof -
  have n: "nat (round_half_even (1 * 10 ^ 5)) = 100000"
    by (simp add: round_half_even_def Let_def)
  have d: "str_nat (100000 div 10 ^ 5) = ''1''"
    by (simp add: str_nat.simps digit_char_def)
  have m: "str_nat (100000 mod 10 ^ 5) = ''0''"
    by (simp add: str_nat.simps digit_char_def)
  from py_fixed_digits[OF _ _ n d m, of 8] show ?thesis
    by (simp add: zfill_def replicate_numeral_unfold)
qed

lemma py_fixed_lon_2: "py_fixed 9 5 2 = ''002.00000''"
proof -
  have n: "nat (round_half_even (2 * 10 ^ 5)) = 200000"
    by (simp add: round_half_even_def Let_def)
  have d: "str_nat (200000 div 10 ^ 5) = ''2''"
    by (simp add: str_nat.simps digit_char_def)
  have m: "str_nat (200000 mod 10 ^ 5) = ''0''"
    by (simp add: str_nat.simps digit_char_def)
  from py_fixed_digits[OF _ _ n d m, of 9] show ?thesis
    by (simp add: zfill_def replicate_numeral_unfold)
qed

lemma py_fixed_alt_0: "py_fixed 8 3 0 = ''0000.000''"
proof -
  have n: "nat (round_half_even (0 * 10 ^ 3)) = 0"
    by (simp add: round_half_even_def Let_def)
  have d: "str_nat (0 div 10 ^ 3) = ''0''"
    by (simp add: str_nat.simps digit_char_def)
  have m: "str_nat (0 mod 10 ^ 3) = ''0''"
    by (simp add: str_nat.simps digit_char_def)
  from py_fixed_digits[OF _ _ n d m, of 8] show ?thesis
    by (simp add: zfill_def replicate_numeral_unfold)
qed

lemma py_fixed_lat_35: "py_fixed 8 5 (356812 / 10000) = ''35.68120''"
proof -
  have n: "nat (round_half_even (356812 / 10000 * 10 ^ 5)) = 3568120"
    by (simp add: round_half_even_def Let_def)
  have d: "str_nat (3568120 div 10 ^ 5) = ''35''"
    by (simp add: str_nat.simps digit_char_def)
  have m: "str_nat (3568120 mod 10 ^ 5) = ''68120''"
    by (simp add: str_nat.simps digit_char_def)
  from py_fixed_digits[OF _ _ n d m, of 8] show ?thesis
    by (simp add: zfill_def replicate_numeral_unfold)
qed

lemma py_fixed_lon_139: "py_fixed 9 5 (1397671 / 10000) = ''139.76710''"
proof -
  have n: "nat (round_half_even (1397671 / 10000 * 10 ^ 5)) = 13976710"
    by (simp add: round_half_even_def Let_def)
  have d: "str_nat (13976710 div 10 ^ 5) = ''139''"
    by (simp add: str_nat.simps digit_char_def)
  have m: "str_nat (13976710 mod 10 ^ 5) = ''76710''"
    by (simp add: str_nat.simps digit_char_def)
  from py_fixed_digits[OF _ _ n d m, of 9] show ?thesis
    by (simp add: zfill_def replicate_numeral_unfold)
qed

lemma py_fixed_alt_10: "py_fixed 8 3 (102 / 10) = ''0010.200''"
proof -
  have n: "nat (round_half_even (102 / 10 * 10 ^ 3)) = 10200"
    by (simp add: round_half_even_def Let_def)
  have d: "str_nat (10200 div 10 ^ 3) = ''10''"
    by (simp add: str_nat.simps digit_char_def)
  have m: "str_nat (10200 mod 10 ^ 3) = ''200''"
    by (simp add: str_nat.simps digit_char_def)
  from py_fixed_digits[OF _ _ n d m, of 8] show ?thesis
    by (simp add: zfill_def replicate_numeral_unfold)
qed

lemma format_iso6709_parts:
  "py_fixed 8 5 \<bar>lat\<bar> = a \<Longrightarrow> py_fixed 9 5 \<bar>lon\<bar> = b \<Longrightarrow> py_fixed 8 3 \<bar>alt\<bar> = c \<Longrightarrow>
   format_iso6709 lat lon alt
     = (if lat \<ge> 0 then ''+'' else ''-'') @ a @ (if lon \<ge> 0 then ''+'' else ''-'') @ b
       @ (if alt \<ge> 0 then ''+'' else ''-'') @ c @ ''/''"
  by (simp add: format_iso6709_def)

text \<open>
  C5. On the two examples of the claim, \<open>format_iso6709\<close> writes the latitude with two
  integer digits and the longitude with three, as claimed, but the altitude with four
  integer digits: the format \<^verbatim>\<open>08.3f\<close> pads to eight characters in all, of which the
  point and the three decimals take four. The results are
  \<^verbatim>\<open>+35.68120+139.76710+0010.200/\<close> and \<^verbatim>\<open>-01.00000-002.00000+0000.000/\<close>,
  one character longer than the claimed \<^verbatim>\<open>+35.68120+139.76710+010.200/\<close> and
  \<^verbatim>\<open>-01.00000-002.00000+000.000/\<close>, and than the layout \<^verbatim>\<open>+AAA.AAA\<close> of the
  function's own documentation.
\<close>

theorem format_iso6709_altitude_four_integer_digits:
  "format_iso6709 (356812 / 10000) (1397671 / 10000) (102 / 10) = ''+35.68120+139.76710+0010.200/''
   \<and> format_iso6709 (356812 / 10000) (1397671 / 10000) (102 / 10) \<noteq> ''+35.68120+139.76710+010.200/''
   \<and> format_iso6709 (- 1) (- 2) 0 = ''-01.00000-002.00000+0000.000/''
   \<and> format_iso6709 (- 1) (- 2) 0 \<noteq> ''-01.00000-002.00000+000.000/''"
proof -
  have a1: "py_fixed 8 5 \<bar>356812 / 10000\<bar> = ''35.68120''"
    using py_fixed_lat_35 by simp
  have b1: "py_fixed 9 5 \<bar>1397671 / 10000\<bar> = ''139.76710''"
    using py_fixed_lon_139 by simp
  have c1: "py_fixed 8 3 \<bar>102 / 10\<bar> = ''0010.200''"
    using py_fixed_alt_10 by simp
  have a2: "py_fixed 8 5 \<bar>- 1\<bar> = ''01.00000''"
    using py_fixed_lat_1 by simp
  have b2: "py_fixed 9 5 \<bar>- 2\<bar> = ''002.00000''"
    using py_fixed_lon_2 by simp
  have c2: "py_fixed 8 3 \<bar>0\<bar> = ''0000.000''"
    using py_fixed_alt_0 by simp
  have e1: "format_iso6709 (356812 / 10000) (1397671 / 10000) (102 / 10)
              = ''+35.68120+139.76710+0010.200/''"
    using format_iso6709_parts[OF a1 b1 c1] by simp
  have e2: "format_iso6709 (- 1) (- 2) 0 = ''-01.00000-002.00000+0000.000/''"
    using format_iso6709_parts[OF a2 b2 c2] by simp
  have n1: "''+35.68120+139.76710+0010.200/'' \<noteq> ''+35.68120+139.76710+010.200/''"
    by simp
  have n2: "''-01.00000-002.00000+0000.000/'' \<noteq> ''-01.00000-002.00000+000.000/''"
    by simp
  from e1 e2 n1 n2 show ?thesis by (simp only:) simp
qed

section \<open>SourceRecycler: the safety check\<close>

lemma subprocess_run_calls:
  "calls (snd (subprocess_run e check cmd w)) = calls w @ [cmd]"
  by (simp add: subprocess_run_def split: prod.splits proc.splits)

lemma recycle_first_skip:
  "\<forall>p\<in>set pre. \<not> path_exists w p \<Longrightarrow>
   recycle_first e export_path (pre @ rest) w = recycle_first e export_path rest w"
  by (induction pre) simp_all

lemma recycle_first_same_file:
  assumes "\<forall>p\<in>set pre. \<not> path_exists w p" and "path_exists w src_vid"
      and "path_normpath e src_vid = path_normpath e export_path"
  shows "recycle_first e export_path (pre @ src_vid # post) w = (Inr (), w)"
  using assms by (simp add: recycle_first_skip)

lemma recycle_first_other_file:
  assumes "\<forall>p\<in>set pre. \<not> path_exists w p" and "path_exists w src_vid"
      and "path_normpath e src_vid \<noteq> path_normpath e export_path"
  shows "fst (recycle_first e export_path (pre @ src_vid # post) w) = Inr ()
       \<and> calls (snd (recycle_first e export_path (pre @ src_vid # post) w))
           = calls w @ [cmd_recycle src_vid]"
proof -
  have "recycle_first e export_path (pre @ src_vid # post) w
          = (Inr (), snd (subprocess_run e True (cmd_recycle src_vid) w))"
    using assms by (simp add: recycle_first_skip split: prod.splits)
  then show ?thesis by (simp add: subprocess_run_calls)
qed

text \<open>
  C1. When the first candidate source path that exists is, after normalisation, the path
  of the export, \<open>recycle_source\<close> returns without an exception and leaves the state as it
  was: no command is started, so nothing is sent to the recycle bin, and no file changes.
\<close>

theorem recycle_source_same_file_no_deletion:
  assumes "potential_srcs e matched_srt = pre @ src_vid # post"
      and "\<forall>p\<in>set pre. \<not> path_exists w p"
      and "path_exists w src_vid"
      and "path_normpath e src_vid = path_normpath e export_path"
  shows "recycle_source e matched_srt export_path w = (Inr (), w)
       \<and> calls (snd (recycle_source e matched_srt export_path w)) = calls w
       \<and> files (snd (recycle_source e matched_srt export_path w)) = files w"
proof -
  have "recycle_source e matched_srt export_path w = (Inr (), w)"
    unfolding recycle_source_def assms(1)
    by (rule recycle_first_same_file[OF assms(2,3,4)])
  then show ?thesis by simp
qed

lemma sample_potential_srcs:
  "potential_srcs (sample_env programs) ''videos/DJI_0001.SRT''
     = [''videos/DJI_0001.MP4'', ''videos/DJI_0001.mp4'', ''videos/DJI_0001.MOV'',
        ''videos/DJI_0001.mov'']"
  by (simp add: potential_srcs_def sample_env_def sample_dirname_def sample_basename_def
      sample_join_def sample_splitext_def)

theorem recycle_source_same_file_no_deletion_witness:
  "recycle_source (sample_env (\<lambda>cmd fs. (Exit 0 [] [], Map.empty)))
     ''videos/DJI_0001.SRT'' ''videos/DJI_0001.mp4''
     \<lparr>files = [''videos/DJI_0001.SRT'' \<mapsto> ''[latitude: 35.6812]'',
               ''videos/DJI_0001.mp4'' \<mapsto> ''video''], calls = []\<rparr>
   = (Inr (), \<lparr>files = [''videos/DJI_0001.SRT'' \<mapsto> ''[latitude: 35.6812]'',
                       ''videos/DJI_0001.mp4'' \<mapsto> ''video''], calls = []\<rparr>)"
proof -
  let ?e = "sample_env (\<lambda>cmd fs. (Exit 0 [] [], Map.empty))"
  let ?w = "\<lparr>files = [''videos/DJI_0001.SRT'' \<mapsto> ''[latitude: 35.6812]'',
                     ''videos/DJI_0001.mp4'' \<mapsto> ''video''], calls = []\<rparr>"
  have a: "potential_srcs ?e ''videos/DJI_0001.SRT''
             = [''videos/DJI_0001.MP4''] @ ''videos/DJI_0001.mp4''
               # [''videos/DJI_0001.MOV'', ''videos/DJI_0001.mov'']"
    by (simp add: sample_potential_srcs)
  have b: "\<forall>p\<in>set [''videos/DJI_0001.MP4'']. \<not> path_exists ?w p"
    by (simp add: path_exists_def)
  have c: "path_exists ?w ''videos/DJI_0001.mp4''"
    by (simp add: path_exists_def)
  have d: "path_normpath ?e ''videos/DJI_0001.mp4'' = path_normpath ?e ''videos/DJI_0001.mp4''"
    by simp
  from recycle_source_same_file_no_deletion[OF a b c d] show ?thesis by simp
qed

section \<open>SubtitleEmbedder: success and failure\<close>





section \<open>The per-item worker: what a failure of the injection step does\<close>

lemma parse_srt_data_types:
  assumes la: "re_search lat_rx content = Some la"
      and lo: "re_search lon_rx content = Some lo"
  shows "\<exists>data x y. parse_srt_data (Inr content) = Some data
          \<and> data ''latitude'' = Some (PFloat x) \<and> data ''longitude'' = Some (PFloat y)
          \<and> data ''datetime'' = map_option PStr (re_search date_rx content)
          \<and> (data ''altitude'' = None \<or> (\<exists>z. data ''altitude'' = Some (PFloat z)))"
proof -
  from float_of_lat[OF la] obtain x where x: "py_float la = Inr x" by blast
  from float_of_lon[OF lo] obtain y where y: "py_float lo = Inr y" by blast
  have alt: "\<And>a. re_search alt_rx content = Some a \<Longrightarrow> \<exists>z. py_float a = Inr z"
    by (rule float_of_alt)
  have fn: "\<And>f. re_search fnum_rx content = Some f \<Longrightarrow> \<exists>v. py_float f = Inr v"
    by (rule float_of_fnum)
  show ?thesis
  proof (cases "re_search alt_rx content")
    case None
    show ?thesis
    proof (cases "re_search fnum_rx content")
      case None
      with \<open>re_search alt_rx content = None\<close> la lo x y show ?thesis
        by (simp add: parse_srt_data_def parse_srt_text_def bind_exn_def Let_def
            set_coords_def set_altitude_def set_fnum_def set_shutter_value
            split: option.splits)
    next
      case (Some f)
      with fn obtain v where "py_float f = Inr v" by blast
      with Some \<open>re_search alt_rx content = None\<close> la lo x y show ?thesis
        by (simp add: parse_srt_data_def parse_srt_text_def bind_exn_def Let_def
            set_coords_def set_altitude_def set_fnum_def set_shutter_value
            split: option.splits)
    qed
  next
    case (Some a)
    with alt obtain z where z: "py_float a = Inr z" by blast
    show ?thesis
    proof (cases "re_search fnum_rx content")
      case None
      with Some z la lo x y show ?thesis
        by (simp add: parse_srt_data_def parse_srt_text_def bind_exn_def Let_def
            set_coords_def set_altitude_def set_fnum_def set_shutter_value
            split: option.splits)
    next
      case f: (Some f)
      with fn obtain v where "py_float f = Inr v" by blast
      with f Some z la lo x y show ?thesis
        by (simp add: parse_srt_data_def parse_srt_text_def bind_exn_def Let_def
            set_coords_def set_altitude_def set_fnum_def set_shutter_value
            split: option.splits)
    qed
  qed
qed

lemma truthy_latitude: "metadata ''latitude'' = Some v \<Longrightarrow> truthy metadata"
  by (simp add: truthy_def dict_keys_def)

lemma exiftool_cmd_no_datetime:
  "metadata ''datetime'' = None \<Longrightarrow>
   exiftool_cmd e video_path metadata = Inl (KeyError ''datetime'')"
  by (simp add: exiftool_cmd_def dict_item_def bind_exn_def)

lemma inject_metadata_no_datetime:
  assumes "metadata ''datetime'' = None" and "truthy metadata"
  shows "inject_metadata e video_path metadata w = (Inl (KeyError ''datetime''), w)"
  using assms by (simp add: inject_metadata_def exiftool_cmd_no_datetime)

lemma read_text_Some: "files w p = Some content \<Longrightarrow> read_text w p = Inr content"
  by (simp add: read_text_def)

lemma py_insert_hd: "hd (py_insert 2 x (a # b # xs)) = a"
  by (simp add: py_insert_def)

lemma py_insert_shape: "py_insert 2 x (a # b # xs) = a # b # x # xs"
  by (simp add: py_insert_def)

lemma exiftool_cmd_built:
  assumes "metadata ''datetime'' = Some (PStr dt)"
      and "metadata ''latitude'' = Some (PFloat x)"
      and "metadata ''longitude'' = Some (PFloat y)"
      and "metadata ''altitude'' = None \<or> (\<exists>z. metadata ''altitude'' = Some (PFloat z))"
  shows "\<exists>cmd. exiftool_cmd e video_path metadata = Inr cmd \<and> hd cmd = ''exiftool''"
  using assms
  by (auto simp add: exiftool_cmd_def dict_item_def bind_exn_def replace_method_def
      as_number_def Let_def py_insert_shape)


text \<open>
  C3. The claim fails on the code: when the telemetry text holds both coordinates and no
  timestamp, the dictionary has no key datetime, line 103 raises \<^verbatim>\<open>KeyError\<close>, and
  neither \<open>inject_metadata\<close> nor \<open>process_single_video\<close> catches it: the exception is the
  outcome of the worker function, with the state as it was.
\<close>

theorem missing_timestamp_escapes_worker:
  assumes "files w matched_srt = Some content"
      and "re_search lat_rx content = Some la"
      and "re_search lon_rx content = Some lo"
      and "re_search date_rx content = None"
  shows "process_single_video e export_path matched_srt False True delete_source w
           = (Inl (KeyError ''datetime''), w)"
proof -
  from parse_srt_data_types[OF assms(2,3)] assms(4) obtain data x where
    p: "parse_srt_data (Inr content) = Some data"
    and l: "data ''latitude'' = Some (PFloat x)"
    and d: "data ''datetime'' = None"
    by auto
  from l have t: "truthy data" by (rule truthy_latitude)
  from p t inject_metadata_no_datetime[OF d t] read_text_Some[OF assms(1)]
  show ?thesis
    by (simp add: process_single_video_def embed_and_inject_def)
qed

theorem missing_timestamp_escapes_worker_witness:
  "process_single_video (sample_env (\<lambda>cmd fs. (Exit 0 [] [], fs)))
     ''out/DJI_0001.mp4'' ''src/DJI_0001.SRT'' False True False
     \<lparr>files = [''src/DJI_0001.SRT'' \<mapsto> ''[latitude: 35.6812] [longitude: 139.7671]'',
               ''out/DJI_0001.mp4'' \<mapsto> ''export''], calls = []\<rparr>
   = (Inl (KeyError ''datetime''),
      \<lparr>files = [''src/DJI_0001.SRT'' \<mapsto> ''[latitude: 35.6812] [longitude: 139.7671]'',
                ''out/DJI_0001.mp4'' \<mapsto> ''export''], calls = []\<rparr>)"
proof -
  let ?w = "\<lparr>files = [''src/DJI_0001.SRT'' \<mapsto> ''[latitude: 35.6812] [longitude: 139.7671]'',
                     ''out/DJI_0001.mp4'' \<mapsto> ''export''], calls = []\<rparr>"
  have f: "files ?w ''src/DJI_0001.SRT'' = Some ''[latitude: 35.6812] [longitude: 139.7671]''"
    by simp
  have a: "re_search lat_rx ''[latitude: 35.6812] [longitude: 139.7671]'' = Some ''35.6812''"
    by code_simp
  have b: "re_search lon_rx ''[latitude: 35.6812] [longitude: 139.7671]'' = Some ''139.7671''"
    by code_simp
  have c: "re_search date_rx ''[latitude: 35.6812] [longitude: 139.7671]'' = None"
    by code_simp
  from missing_timestamp_escapes_worker[OF f a b c] show ?thesis .
qed

lemma path_exists_calls [simp]:
  "path_exists (w\<lparr>calls := cs\<rparr>) p = path_exists w p"
  by (simp add: path_exists_def)

lemma inject_metadata_exiftool_fails:
  assumes "truthy metadata"
      and "exiftool_cmd e video_path metadata = Inr cmd"
      and "\<not> path_exists w (video_path @ ''_exiftool_tmp'')"
      and "run_program e cmd (files w) = (Exit returncode out err, files w)"
      and "returncode \<noteq> 0"
  shows "inject_metadata e video_path metadata w = (Inr (), w\<lparr>calls := calls w @ [cmd]\<rparr>)"
  using assms by (simp add: inject_metadata_def Let_def subprocess_run_def)

text \<open>
  C2. The claim fails on the code: let the telemetry text hold a timestamp and both
  coordinates, let every run of \<^verbatim>\<open>exiftool\<close> fail with return code 1 and change no
  file, and let the first existing candidate source be another file than the export. With
  cleanup enabled, forced processing and no subtitle embedding, \<open>process_single_video\<close>
  reports success and starts exactly two commands: the failing \<^verbatim>\<open>exiftool\<close> run and,
  after it, the command that sends the source recording to the recycle bin.
\<close>

theorem exiftool_failure_still_recycles:
  assumes "files w matched_srt = Some content"
      and "re_search lat_rx content = Some la"
      and "re_search lon_rx content = Some lo"
      and "re_search date_rx content = Some dt"
      and "\<And>cmd fs. hd cmd = ''exiftool'' \<Longrightarrow> run_program e cmd fs = (Exit 1 [] err, fs)"
      and "\<not> path_exists w (export_path @ ''_exiftool_tmp'')"
      and "potential_srcs e matched_srt = pre @ src_vid # post"
      and "\<forall>p\<in>set pre. \<not> path_exists w p"
      and "path_exists w src_vid"
      and "path_normpath e src_vid \<noteq> path_normpath e export_path"
  shows "\<exists>status cmd w1.
           process_single_video e export_path matched_srt False True True w = (Inr status, w1)
           \<and> prefix ''success'' status
           \<and> hd cmd = ''exiftool''
           \<and> calls w1 = calls w @ [cmd, cmd_recycle src_vid]"
proof -
  from parse_srt_data_types[OF assms(2,3)] assms(4) obtain data x y where
    p: "parse_srt_data (Inr content) = Some data"
    and l: "data ''latitude'' = Some (PFloat x)"
    and m: "data ''longitude'' = Some (PFloat y)"
    and d: "data ''datetime'' = Some (PStr dt)"
    and a: "data ''altitude'' = None \<or> (\<exists>z. data ''altitude'' = Some (PFloat z))"
    by auto
  from l have t: "truthy data" by (rule truthy_latitude)
  from exiftool_cmd_built[OF d l m a] obtain cmd where
    c: "exiftool_cmd e export_path data = Inr cmd" and h: "hd cmd = ''exiftool''"
    by blast
  let ?w2 = "w\<lparr>calls := calls w @ [cmd]\<rparr>"
  have r: "run_program e cmd (files w) = (Exit 1 [] err, files w)"
    by (rule assms(5)[OF h])
  have i: "inject_metadata e export_path data w = (Inr (), ?w2)"
    by (rule inject_metadata_exiftool_fails[OF t c assms(6) r]) simp
  have pre: "\<forall>p\<in>set pre. \<not> path_exists ?w2 p"
    using assms(8) by simp
  have ex: "path_exists ?w2 src_vid"
    using assms(9) by simp
  from recycle_first_other_file[OF pre ex assms(10), of post]
  have rc: "fst (recycle_source e matched_srt export_path ?w2) = Inr ()"
    and cs: "calls (snd (recycle_source e matched_srt export_path ?w2))
               = calls w @ [cmd, cmd_recycle src_vid]"
    by (simp_all add: recycle_source_def assms(7))
  from rc obtain w3 where
    rs: "recycle_source e matched_srt export_path ?w2 = (Inr (), w3)"
    by (cases "recycle_source e matched_srt export_path ?w2") auto
  from cs rs have c3: "calls w3 = calls w @ [cmd, cmd_recycle src_vid]"
    by simp
  let ?status = "success_status e (path_basename e export_path) data"
  have ps: "process_single_video e export_path matched_srt False True True w = (Inr ?status, w3)"
    using p t i rs read_text_Some[OF assms(1)]
    by (simp add: process_single_video_def embed_and_inject_def delete_source_step_def)
  have pf: "prefix ''success'' ?status"
    by (simp add: success_status_def)
  from ps pf h c3 show ?thesis by blast
qed

theorem exiftool_failure_still_recycles_witness:
  "\<exists>status cmd w1.
     process_single_video
       (sample_env (\<lambda>cmd fs. if hd cmd = ''exiftool'' then (Exit 1 [] ''File format error'', fs)
                             else (Exit 0 [] [], fs)))
       ''out/DJI_0001.mp4'' ''src/DJI_0001.SRT'' False True True
       \<lparr>files = [''src/DJI_0001.SRT''
                   \<mapsto> ''2025-08-09 18:53:47 [latitude: 35.6812] [longitude: 139.7671]'',
                 ''src/DJI_0001.MP4'' \<mapsto> ''original'',
                 ''out/DJI_0001.mp4'' \<mapsto> ''export''], calls = []\<rparr>
     = (Inr status, w1)
     \<and> prefix ''success'' status \<and> hd cmd = ''exiftool''
     \<and> calls w1 = [cmd, cmd_recycle ''src/DJI_0001.MP4'']"
proof -
  let ?e = "sample_env (\<lambda>cmd fs. if hd cmd = ''exiftool'' then (Exit 1 [] ''File format error'', fs)
                             else (Exit 0 [] [], fs))"
  let ?c = "''2025-08-09 18:53:47 [latitude: 35.6812] [longitude: 139.7671]''"
  let ?w = "\<lparr>files = [''src/DJI_0001.SRT'' \<mapsto> ?c, ''src/DJI_0001.MP4'' \<mapsto> ''original'',
                     ''out/DJI_0001.mp4'' \<mapsto> ''export''], calls = []\<rparr>"
  have f: "files ?w ''src/DJI_0001.SRT'' = Some ?c"
    by simp
  have a: "re_search lat_rx ?c = Some ''35.6812''"
    by code_simp
  have b: "re_search lon_rx ?c = Some ''139.7671''"
    by code_simp
  have c: "re_search date_rx ?c = Some ''2025-08-09 18:53:47''"
    by code_simp
  have r: "\<And>cmd fs. hd cmd = ''exiftool'' \<Longrightarrow>
             run_program ?e cmd fs = (Exit 1 [] ''File format error'', fs)"
    by (simp add: sample_env_def)
  have t: "\<not> path_exists ?w (''out/DJI_0001.mp4'' @ ''_exiftool_tmp'')"
    by (simp add: path_exists_def)
  have s: "potential_srcs ?e ''src/DJI_0001.SRT''
             = [] @ ''src/DJI_0001.MP4''
               # [''src/DJI_0001.mp4'', ''src/DJI_0001.MOV'', ''src/DJI_0001.mov'']"
    by (simp add: potential_srcs_def sample_env_def sample_dirname_def sample_basename_def
        sample_join_def sample_splitext_def)
  have n: "\<forall>p\<in>set []. \<not> path_exists ?w p"
    by simp
  have x: "path_exists ?w ''src/DJI_0001.MP4''"
    by (simp add: path_exists_def)
  have d: "path_normpath ?e ''src/DJI_0001.MP4'' \<noteq> path_normpath ?e ''out/DJI_0001.mp4''"
    by (simp add: sample_env_def)
  from exiftool_failure_still_recycles[OF f a b c r t s n x d] show ?thesis
    by simp
qed

end
